theory Spec2Isabelle
  imports Main "HOL-Library.Sublist"
begin

section \<open>Lease clock skew (state/lease/skew.go)\<close>

subsection \<open>Go's time.Time and time.Duration\<close>

text \<open>
  \<^verbatim>\<open>skew.go\<close> computes with \<^verbatim>\<open>time.Time\<close> and \<^verbatim>\<open>time.Duration\<close> of the Go
  standard library (package \<^verbatim>\<open>time\<close>, as in the Go releases this code was written
  for). A \<^verbatim>\<open>Time\<close> is an \<^verbatim>\<open>int64\<close> count of seconds since January 1, year 1
  00:00:00 UTC and an \<^verbatim>\<open>int32\<close> nanosecond offset in \<open>[0, 999999999]\<close>; a
  \<^verbatim>\<open>Duration\<close> is an \<^verbatim>\<open>int64\<close> count of nanoseconds, so it holds about 292
  years. The location pointer of a \<^verbatim>\<open>Time\<close> only affects printing and is left out.
  Machine integers are \<open>int\<close> with the two's complement wrap-around written out;
  \<open>wf_Time\<close> says that the fields are in the range of their types.
\<close>

definition wrap64 :: "int \<Rightarrow> int" where
  "wrap64 x = (x + 2 ^ 63) mod 2 ^ 64 - 2 ^ 63"

definition wrap32 :: "int \<Rightarrow> int" where
  "wrap32 x = (x + 2 ^ 31) mod 2 ^ 32 - 2 ^ 31"

definition is_int64 :: "int \<Rightarrow> bool" where
  "is_int64 x \<longleftrightarrow> - (2 ^ 63) \<le> x \<and> x < 2 ^ 63"

text \<open>Go's \<^verbatim>\<open>/\<close> and \<^verbatim>\<open>%\<close> on integers truncate towards zero.\<close>

definition tdiv :: "int \<Rightarrow> int \<Rightarrow> int" where
  "tdiv a b = (if (a < 0) = (b < 0) then \<bar>a\<bar> div \<bar>b\<bar> else - (\<bar>a\<bar> div \<bar>b\<bar>))"

definition tmod :: "int \<Rightarrow> int \<Rightarrow> int" where
  "tmod a b = a - b * tdiv a b"

type_synonym Duration = int

definition minDuration :: Duration where
  "minDuration = - (2 ^ 63)"

definition maxDuration :: Duration where
  "maxDuration = 2 ^ 63 - 1"

definition Second :: Duration where
  "Second = 1000000000"

record Time =
  sec :: int
  nsec :: int

definition wf_Time :: "Time \<Rightarrow> bool" where
  "wf_Time t \<longleftrightarrow> is_int64 (sec t) \<and> 0 \<le> nsec t \<and> nsec t \<le> 999999999"

text \<open>The instant a \<^verbatim>\<open>Time\<close> denotes, in nanoseconds since the zero time.\<close>

definition instant :: "Time \<Rightarrow> int" where
  "instant t = sec t * 1000000000 + nsec t"

definition After :: "Time \<Rightarrow> Time \<Rightarrow> bool" where
  "After t u \<longleftrightarrow> sec t > sec u \<or> sec t = sec u \<and> nsec t > nsec u"

definition Before :: "Time \<Rightarrow> Time \<Rightarrow> bool" where
  "Before t u \<longleftrightarrow> sec t < sec u \<or> sec t = sec u \<and> nsec t < nsec u"

definition Equal :: "Time \<Rightarrow> Time \<Rightarrow> bool" where
  "Equal t u \<longleftrightarrow> sec t = sec u \<and> nsec t = nsec u"

definition IsZero :: "Time \<Rightarrow> bool" where
  "IsZero t \<longleftrightarrow> sec t = 0 \<and> nsec t = 0"

text \<open>
  \<^verbatim>\<open>
  func (t Time) Add(d Duration) Time {
      t.sec += int64(d / 1e9)
      nsec := t.nsec + int32(d%1e9)
      if nsec >= 1e9 {
          t.sec++
          nsec -= 1e9
      } else if nsec < 0 {
          t.sec--
          nsec += 1e9
      }
      t.nsec = nsec
      return t
  }
  \<close>
\<close>

definition Add :: "Time \<Rightarrow> Duration \<Rightarrow> Time" where
  "Add t d =
     (let s = wrap64 (sec t + tdiv d 1000000000);
          n = wrap32 (nsec t + wrap32 (tmod d 1000000000))
      in if n \<ge> 1000000000 then \<lparr>sec = wrap64 (s + 1), nsec = wrap32 (n - 1000000000)\<rparr>
         else if n < 0 then \<lparr>sec = wrap64 (s - 1), nsec = wrap32 (n + 1000000000)\<rparr>
         else \<lparr>sec = s, nsec = n\<rparr>)"

text \<open>
  \<^verbatim>\<open>
  func (t Time) Sub(u Time) Duration {
      d := Duration(t.sec-u.sec)*Second + Duration(t.nsec-u.nsec)
      // Check for overflow or underflow.
      switch {
      case u.Add(d).Equal(t):
          return d // d is correct
      case t.Before(u):
          return minDuration // t - u is negative out of range
      default:
          return maxDuration // t - u is positive out of range
      }
  }
  \<close>
  The difference saturates: a \<^verbatim>\<open>Duration\<close> holds about 292 years.
\<close>

definition Sub :: "Time \<Rightarrow> Time \<Rightarrow> Duration" where
  "Sub t u =
     (let d = wrap64 (wrap64 (wrap64 (sec t - sec u) * Second) + wrap32 (nsec t - nsec u))
      in if Equal (Add u d) t then d
         else if Before t u then minDuration
         else maxDuration)"

subsection \<open>Skew\<close>

record Skew =
  LastWrite :: Time
  ReadAfter :: Time
  ReadBefore :: Time

definition wf_Skew :: "Skew \<Rightarrow> bool" where
  "wf_Skew skew \<longleftrightarrow> wf_Time (LastWrite skew) \<and> wf_Time (ReadAfter skew) \<and> wf_Time (ReadBefore skew)"

definition isZero :: "Skew \<Rightarrow> bool" where
  "isZero skew \<longleftrightarrow> IsZero (LastWrite skew) \<and> IsZero (ReadAfter skew) \<and> IsZero (ReadBefore skew)"

definition Earliest :: "Skew \<Rightarrow> Time \<Rightarrow> Time" where
  "Earliest skew remote =
     (if isZero skew then remote
      else let delta = Sub remote (LastWrite skew) in Add (ReadAfter skew) delta)"

definition Latest :: "Skew \<Rightarrow> Time \<Rightarrow> Time" where
  "Latest skew remote =
     (if isZero skew then remote
      else let delta = Sub remote (LastWrite skew) in Add (ReadBefore skew) delta)"

text \<open>
  Two notions used to state the properties: the differences a \<^verbatim>\<open>Duration\<close> can hold,
  and the instants a \<^verbatim>\<open>Time\<close> can hold.
\<close>

definition fits_Duration :: "int \<Rightarrow> bool" where
  "fits_Duration d \<longleftrightarrow> minDuration \<le> d \<and> d \<le> maxDuration"

definition representable :: "int \<Rightarrow> bool" where
  "representable x \<longleftrightarrow> is_int64 (x div 1000000000)"

section \<open>Network spaces (state/spaces.go)\<close>

subsection \<open>Documents and the store\<close>

datatype Life = Alive | Dying | Dead

record spaceDoc =
  DocID :: string
  ModelUUID :: string
  Life :: Life
  Name :: string
  IsPublic :: bool
  ProviderId :: string

text \<open>
  Modelled from the spec: the subnet document (state/subnets.go is not under src/). A
  space only needs a subnet to exist and to carry the name of its space, the field
  \<^verbatim>\<open>space-name\<close> that \<^verbatim>\<open>AddSpace\<close> sets and \<^verbatim>\<open>Subnets\<close> queries.
\<close>

record subnetDoc =
  SubnetDocID :: string
  SpaceName :: string

datatype collection = spacesC | subnetsC | providerIDsC

record database =
  spaces :: "string \<rightharpoonup> spaceDoc"
  subnets :: "string \<rightharpoonup> subnetDoc"
  providerIDs :: "string set"

text \<open>
  Of a \<^verbatim>\<open>*State\<close> the operations use the model UUID; the database it talks to is
  part of the world that every operation takes and returns.
\<close>

record State =
  stModelUUID :: string

record Space =
  st :: State
  doc :: spaceDoc

text \<open>
  The errors of spaces.go, each by its cause (an annotation put in front of an error keeps
  the cause): the invalid name, the space that already exists, the space or subnet that
  is not found (the two that satisfy \<^verbatim>\<open>errors.IsNotFound\<close>), the provider id that
  is not unique, \<^verbatim>\<open>txn.ErrAborted\<close>, any other error of a transaction, the lookups
  and the refresh that failed for another reason than not-found, \<^verbatim>\<open>errNotAlive\<close>,
  and the two errors of \<^verbatim>\<open>Remove\<close>, space is not dead and not found or not dead.
\<close>

datatype error =
    NotValid
  | AlreadyExists string
  | NotFoundSpace string
  | NotFoundSubnet string
  | ProviderIdNotUnique string
  | ErrAborted
  | StoreError
  | CannotGetSpace
  | CannotGetSubnet
  | CannotRefreshSpace
  | ErrNotAlive
  | SpaceNotDead
  | NotFoundOrNotDead

definition IsNotFound :: "error \<Rightarrow> bool" where
  "IsNotFound e = (case e of NotFoundSpace _ \<Rightarrow> True | NotFoundSubnet _ \<Rightarrow> True | _ \<Rightarrow> False)"

subsection \<open>Transactions (gopkg.in/mgo.v2/txn)\<close>

text \<open>
  A \<^verbatim>\<open>txn.Op\<close> names a document by collection and id, carries an optional assertion
  and at most one of an insert, an update and a removal. The assertions this file uses are
  \<^verbatim>\<open>txn.DocMissing\<close>, \<^verbatim>\<open>txn.DocExists\<close> and a query on the \<^verbatim>\<open>life\<close> field; its
  updates set \<^verbatim>\<open>life\<close> or \<^verbatim>\<open>space-name\<close>.
\<close>

datatype assertion = NoAssert | DocMissing | DocExists | LifeIs Life

datatype insertion = InsertSpaceDoc spaceDoc | InsertSubnetDoc subnetDoc | InsertProviderIdDoc string

datatype update = SetLife Life | SetSpaceName string

record Op =
  C :: collection
  Id :: string
  Assert :: assertion
  Insert :: "insertion option"
  Update :: "update option"
  Remove_flag :: bool

text \<open>
  Modelled from the spec: \<^verbatim>\<open>isAliveDoc\<close> and \<^verbatim>\<open>isDeadDoc\<close> (declared outside src/), the
  assertions that the current life is the expected one.
\<close>

definition isAliveDoc :: assertion where
  "isAliveDoc = LifeIs Alive"

definition isDeadDoc :: assertion where
  "isDeadDoc = LifeIs Dead"

definition doc_exists :: "database \<Rightarrow> collection \<Rightarrow> string \<Rightarrow> bool" where
  "doc_exists db c i =
     (case c of spacesC \<Rightarrow> spaces db i \<noteq> None
              | subnetsC \<Rightarrow> subnets db i \<noteq> None
              | providerIDsC \<Rightarrow> i \<in> providerIDs db)"

definition assert_holds :: "database \<Rightarrow> Op \<Rightarrow> bool" where
  "assert_holds db op =
     (case Assert op of
        NoAssert \<Rightarrow> True
      | DocMissing \<Rightarrow> \<not> doc_exists db (C op) (Id op)
      | DocExists \<Rightarrow> doc_exists db (C op) (Id op)
      | LifeIs l \<Rightarrow> C op = spacesC \<and> (case spaces db (Id op) of None \<Rightarrow> False | Some d \<Rightarrow> Life d = l))"

definition remove_doc :: "database \<Rightarrow> collection \<Rightarrow> string \<Rightarrow> database" where
  "remove_doc db c i =
     (case c of spacesC \<Rightarrow> db\<lparr>spaces := (spaces db)(i := None)\<rparr>
              | subnetsC \<Rightarrow> db\<lparr>subnets := (subnets db)(i := None)\<rparr>
              | providerIDsC \<Rightarrow> db\<lparr>providerIDs := providerIDs db - {i}\<rparr>)"

text \<open>An insert into a collection of another document type does not occur; it changes nothing.\<close>

definition insert_doc :: "database \<Rightarrow> collection \<Rightarrow> string \<Rightarrow> insertion \<Rightarrow> database" where
  "insert_doc db c i d =
     (if doc_exists db c i then db
      else case (c, d) of
             (spacesC, InsertSpaceDoc sd) \<Rightarrow> db\<lparr>spaces := (spaces db)(i \<mapsto> sd)\<rparr>
           | (subnetsC, InsertSubnetDoc sd) \<Rightarrow> db\<lparr>subnets := (subnets db)(i \<mapsto> sd)\<rparr>
           | (providerIDsC, InsertProviderIdDoc k) \<Rightarrow> db\<lparr>providerIDs := insert i (providerIDs db)\<rparr>
           | _ \<Rightarrow> db)"

definition update_doc :: "database \<Rightarrow> collection \<Rightarrow> string \<Rightarrow> update \<Rightarrow> database" where
  "update_doc db c i u =
     (case (c, u) of
        (spacesC, SetLife l) \<Rightarrow>
          (case spaces db i of None \<Rightarrow> db
           | Some d \<Rightarrow> db\<lparr>spaces := (spaces db)(i \<mapsto> d\<lparr>Life := l\<rparr>)\<rparr>)
      | (subnetsC, SetSpaceName n) \<Rightarrow>
          (case subnets db i of None \<Rightarrow> db
           | Some d \<Rightarrow> db\<lparr>subnets := (subnets db)(i \<mapsto> d\<lparr>SpaceName := n\<rparr>)\<rparr>)
      | _ \<Rightarrow> db)"

text \<open>
  The change of one operation. The transaction goes on when an inserted document
  already exists, or an updated or removed one is missing: only assertions abort.
\<close>

definition apply_op :: "database \<Rightarrow> Op \<Rightarrow> database" where
  "apply_op db op =
     (if Remove_flag op then remove_doc db (C op) (Id op)
      else case Insert op of
             Some d \<Rightarrow> insert_doc db (C op) (Id op) d
           | None \<Rightarrow> (case Update op of
                        Some u \<Rightarrow> update_doc db (C op) (Id op) u
                      | None \<Rightarrow> db))"

subsection \<open>The store under other actors and faults\<close>

text \<open>
  Every access to the store is one atomic step. Before each access the environment takes
  a step of its own, read from a script: nothing happens, the access fails (transport
  error or timeout), or other actors have changed the database. An empty script is a
  quiet, reliable store.
\<close>

datatype event = Quiet | Fault | Interfere database

record world =
  db :: database
  script :: "event list"

definition env_step :: "world \<Rightarrow> bool \<times> world" where
  "env_step w =
     (case script w of
        [] \<Rightarrow> (False, w)
      | Quiet # es \<Rightarrow> (False, w\<lparr>script := es\<rparr>)
      | Fault # es \<Rightarrow> (True, w\<lparr>script := es\<rparr>)
      | Interfere d # es \<Rightarrow> (False, \<lparr>db = d, script = es\<rparr>))"

text \<open>
  Modelled from the spec: \<^verbatim>\<open>docID\<close> (not under src/). The id of a document is derived
  from the local name and unique per model: the model UUID is put in front, unless it is
  there already. The transaction runner and the collections of a \<^verbatim>\<open>State\<close> resolve
  the ids they are given in the same way.
\<close>

definition docID :: "State \<Rightarrow> string \<Rightarrow> string" where
  "docID s localID =
     (if prefix (stModelUUID s @ '':'') localID then localID
      else stModelUUID s @ '':'' @ localID)"

text \<open>
  Modelled from the spec: \<^verbatim>\<open>runTransaction\<close> (state/txns.go is not under src/). The
  assertions of all operations are tested before any change takes place; if one fails
  the transaction aborts (\<^verbatim>\<open>txn.ErrAborted\<close>) and nothing is applied; otherwise all
  changes are applied together. A store error applies nothing either.
\<close>

definition runTransaction :: "State \<Rightarrow> Op list \<Rightarrow> world \<Rightarrow> error option \<times> world" where
  "runTransaction s ops w =
     (let ops' = map (\<lambda>op. op\<lparr>Id := docID s (Id op)\<rparr>) ops
      in case env_step w of
           (True, w1) \<Rightarrow> (Some StoreError, w1)
         | (False, w1) \<Rightarrow>
             if list_all (assert_holds (db w1)) ops'
             then (None, w1\<lparr>db := foldl apply_op (db w1) ops'\<rparr>)
             else (Some ErrAborted, w1))"

text \<open>
  Modelled from the spec: \<^verbatim>\<open>onAbort\<close> (not under src/) returns the supplied error if
  the transaction aborted, and the transaction's own error otherwise.
\<close>

definition onAbort :: "error \<Rightarrow> error \<Rightarrow> error" where
  "onAbort txnErr err = (if txnErr = ErrAborted then err else txnErr)"

text \<open>Modelled from the spec: \<^verbatim>\<open>errNotAlive\<close> (not under src/), the NotAlive error.\<close>

definition errNotAlive :: error where
  "errNotAlive = ErrNotAlive"

text \<open>
  Modelled from the spec: the lookup by id in a collection of the model
  (\<^verbatim>\<open>getCollection\<close> is not under src/), \<^verbatim>\<open>FindId(id).One(&doc)\<close>: the document,
  the not-found sentinel \<^verbatim>\<open>mgo.ErrNotFound\<close>, or another error.
\<close>

datatype 'a found = Found 'a | ErrNotFound | ErrOther

definition FindId_spaces :: "State \<Rightarrow> string \<Rightarrow> world \<Rightarrow> spaceDoc found \<times> world" where
  "FindId_spaces s i w =
     (case env_step w of
        (True, w1) \<Rightarrow> (ErrOther, w1)
      | (False, w1) \<Rightarrow>
          (case spaces (db w1) (docID s i) of
             None \<Rightarrow> (ErrNotFound, w1)
           | Some d \<Rightarrow> (Found d, w1)))"

definition FindId_subnets :: "State \<Rightarrow> string \<Rightarrow> world \<Rightarrow> subnetDoc found \<times> world" where
  "FindId_subnets s i w =
     (case env_step w of
        (True, w1) \<Rightarrow> (ErrOther, w1)
      | (False, w1) \<Rightarrow>
          (case subnets (db w1) (docID s i) of
             None \<Rightarrow> (ErrNotFound, w1)
           | Some d \<Rightarrow> (Found d, w1)))"

text \<open>
  Modelled from the spec: \<^verbatim>\<open>networkEntityGlobalKeyOp\<close> and
  \<^verbatim>\<open>networkEntityGlobalKeyRemoveOp\<close> (not under src/) maintain the index of provider
  ids: one entry per provider id in use, inserted with the assertion that it is missing
  (a provider id is unique in a model) and removed with the entity.
\<close>

definition networkEntityGlobalKey :: "State \<Rightarrow> string \<Rightarrow> string \<Rightarrow> string" where
  "networkEntityGlobalKey s globalKey providerId = docID s (globalKey @ '':'' @ providerId)"

definition networkEntityGlobalKeyOp :: "State \<Rightarrow> string \<Rightarrow> string \<Rightarrow> Op" where
  "networkEntityGlobalKeyOp s globalKey providerId =
     (let key = networkEntityGlobalKey s globalKey providerId
      in \<lparr>C = providerIDsC, Id = key, Assert = DocMissing,
          Insert = Some (InsertProviderIdDoc key), Update = None, Remove_flag = False\<rparr>)"

definition networkEntityGlobalKeyRemoveOp :: "State \<Rightarrow> string \<Rightarrow> string \<Rightarrow> Op" where
  "networkEntityGlobalKeyRemoveOp s globalKey providerId =
     (let key = networkEntityGlobalKey s globalKey providerId
      in \<lparr>C = providerIDsC, Id = key, Assert = NoAssert,
          Insert = None, Update = None, Remove_flag = True\<rparr>)"

text \<open>
  Modelled from the spec: \<^verbatim>\<open>State.Subnet\<close> (state/subnets.go is not under src/)
  resolves a subnet by id and reports a not-found error naming it when it is missing.
\<close>

definition Subnet :: "State \<Rightarrow> string \<Rightarrow> world \<Rightarrow> (error + subnetDoc) \<times> world" where
  "Subnet s cidr w =
     (case FindId_subnets s cidr w of
        (ErrNotFound, w1) \<Rightarrow> (Inl (NotFoundSubnet cidr), w1)
      | (ErrOther, w1) \<Rightarrow> (Inl CannotGetSubnet, w1)
      | (Found d, w1) \<Rightarrow> (Inr d, w1))"

subsection \<open>The operations of spaces.go\<close>

definition Space :: "State \<Rightarrow> string \<Rightarrow> world \<Rightarrow> (error + Space) \<times> world" where
  "Space s name w =
     (case FindId_spaces s name w of
        (ErrNotFound, w1) \<Rightarrow> (Inl (NotFoundSpace name), w1)
      | (ErrOther, w1) \<Rightarrow> (Inl CannotGetSpace, w1)
      | (Found d, w1) \<Rightarrow> (Inr \<lparr>st = s, doc = d\<rparr>, w1))"

definition Refresh :: "Space \<Rightarrow> world \<Rightarrow> error option \<times> Space \<times> world" where
  "Refresh s w =
     (case FindId_spaces (st s) (DocID (doc s)) w of
        (ErrNotFound, w1) \<Rightarrow> (Some (NotFoundSpace (Name (doc s))), s, w1)
      | (ErrOther, w1) \<Rightarrow> (Some CannotRefreshSpace, s, w1)
      | (Found d, w1) \<Rightarrow> (None, s\<lparr>doc := d\<rparr>, w1))"

text \<open>The operations \<^verbatim>\<open>AddSpace\<close> builds (lines 96 to 117).\<close>

definition AddSpace_ops :: "State \<Rightarrow> string \<Rightarrow> string \<Rightarrow> string list \<Rightarrow> bool \<Rightarrow> Op list" where
  "AddSpace_ops s name providerId subnetIds isPublic =
     (let spaceID = docID s name;
          spaceDoc = \<lparr>DocID = spaceID, ModelUUID = stModelUUID s, Life = Alive, Name = name,
                      IsPublic = isPublic, ProviderId = providerId\<rparr>
      in [\<lparr>C = spacesC, Id = spaceID, Assert = DocMissing,
           Insert = Some (InsertSpaceDoc spaceDoc), Update = None, Remove_flag = False\<rparr>]
         @ (if providerId \<noteq> [] then [networkEntityGlobalKeyOp s ''space'' providerId] else [])
         @ map (\<lambda>subnetId. \<lparr>C = subnetsC, Id = docID s subnetId, Assert = DocExists,
                             Insert = None, Update = Some (SetSpaceName name),
                             Remove_flag = False\<rparr>) subnetIds)"

text \<open>
  The loop over the subnets after an abort (lines 123 to 127): the first subnet that is
  not found ends it with that error; any other error of a lookup is passed over.
\<close>

fun AddSpace_subnets :: "State \<Rightarrow> string list \<Rightarrow> world \<Rightarrow> error option \<times> world" where
  "AddSpace_subnets s [] w = (None, w)"
| "AddSpace_subnets s (subnetId # rest) w =
     (case Subnet s subnetId w of
        (Inl err, w1) \<Rightarrow> if IsNotFound err then (Some err, w1) else AddSpace_subnets s rest w1
      | (Inr _, w1) \<Rightarrow> AddSpace_subnets s rest w1)"

text \<open>What \<^verbatim>\<open>AddSpace\<close> does once its transaction has aborted (lines 120 to 134).\<close>

definition AddSpace_aborted ::
  "State \<Rightarrow> string \<Rightarrow> string \<Rightarrow> string list \<Rightarrow> Space \<Rightarrow> world \<Rightarrow> error \<times> world" where
  "AddSpace_aborted s name providerId subnetIds newSpace w =
     (case Space s name w of
        (Inr _, w1) \<Rightarrow> (AlreadyExists name, w1)
      | (Inl _, w1) \<Rightarrow>
          (case AddSpace_subnets s subnetIds w1 of
             (Some err, w2) \<Rightarrow> (err, w2)
           | (None, w2) \<Rightarrow>
               (case Refresh newSpace w2 of
                  (Some err, _, w3) \<Rightarrow>
                    if IsNotFound err then (ProviderIdNotUnique providerId, w3) else (err, w3)
                | (None, _, w3) \<Rightarrow> (ErrAborted, w3))))"

text \<open>
  \<^verbatim>\<open>names.IsValidSpace\<close> belongs to another repository and is a parameter. The
  annotation \<^verbatim>\<open>adding space\<close> that is put in front of every error keeps its cause,
  and the cause is what the model returns.
\<close>

definition AddSpace ::
  "(string \<Rightarrow> bool) \<Rightarrow> State \<Rightarrow> string \<Rightarrow> string \<Rightarrow> string list \<Rightarrow> bool \<Rightarrow> world
   \<Rightarrow> (error + Space) \<times> world" where
  "AddSpace IsValidSpace s name providerId subnetIds isPublic w =
     (if \<not> IsValidSpace name then (Inl NotValid, w)
      else
        let spaceDoc = \<lparr>DocID = docID s name, ModelUUID = stModelUUID s, Life = Alive,
                        Name = name, IsPublic = isPublic, ProviderId = providerId\<rparr>;
            newSpace = \<lparr>st = s, doc = spaceDoc\<rparr>;
            ops = AddSpace_ops s name providerId subnetIds isPublic
        in case runTransaction s ops w of
             (Some err, w1) \<Rightarrow>
               if err = ErrAborted
               then (case AddSpace_aborted s name providerId subnetIds newSpace w1 of
                       (e, w2) \<Rightarrow> (Inl e, w2))
               else (Inl err, w1)
           | (None, w1) \<Rightarrow> (Inr newSpace, w1))"

definition EnsureDead :: "Space \<Rightarrow> world \<Rightarrow> error option \<times> Space \<times> world" where
  "EnsureDead s w =
     (if Life (doc s) = Dead then (None, s, w)
      else
        let ops = [\<lparr>C = spacesC, Id = DocID (doc s), Assert = isAliveDoc,
                    Insert = None, Update = Some (SetLife Dead), Remove_flag = False\<rparr>]
        in case runTransaction (st s) ops w of
             (None, w1) \<Rightarrow> (None, s\<lparr>doc := (doc s)\<lparr>Life := Dead\<rparr>\<rparr>, w1)
           | (Some txnErr, w1) \<Rightarrow> (Some (onAbort txnErr errNotAlive), s, w1))"

definition Remove :: "Space \<Rightarrow> world \<Rightarrow> error option \<times> world" where
  "Remove s w =
     (if Life (doc s) \<noteq> Dead then (Some SpaceNotDead, w)
      else
        let ops = [\<lparr>C = spacesC, Id = DocID (doc s), Assert = isDeadDoc,
                    Insert = None, Update = None, Remove_flag = True\<rparr>]
                  @ (if ProviderId (doc s) \<noteq> []
                     then [networkEntityGlobalKeyRemoveOp (st s) ''space'' (ProviderId (doc s))]
                     else [])
        in case runTransaction (st s) ops w of
             (None, w1) \<Rightarrow> (None, w1)
           | (Some txnErr, w1) \<Rightarrow> (Some (onAbort txnErr NotFoundOrNotDead), w1))"

subsection \<open>Runs of operations\<close>

text \<open>
  The database changes only through the transactions of \<^verbatim>\<open>AddSpace\<close>,
  \<^verbatim>\<open>EnsureDead\<close> and \<^verbatim>\<open>Remove\<close>, each applied atomically, so the databases that
  concurrent callers can reach are those reached by running the operations one after
  another, each called by any actor with any \<^verbatim>\<open>Space\<close> value it holds, however
  stale. In such a run the script holds no change from outside.
\<close>

datatype action =
    DoAddSpace State string string "string list" bool
  | DoEnsureDead Space
  | DoRemove Space

fun perform :: "(string \<Rightarrow> bool) \<Rightarrow> world \<Rightarrow> action \<Rightarrow> world" where
  "perform IsValidSpace w (DoAddSpace s name providerId subnetIds isPublic) =
     snd (AddSpace IsValidSpace s name providerId subnetIds isPublic w)"
| "perform IsValidSpace w (DoEnsureDead s) = snd (snd (EnsureDead s w))"
| "perform IsValidSpace w (DoRemove s) = snd (Remove s w)"

definition run :: "(string \<Rightarrow> bool) \<Rightarrow> action list \<Rightarrow> world \<Rightarrow> world" where
  "run IsValidSpace acts w = foldl (perform IsValidSpace) w acts"

definition is_Interfere :: "event \<Rightarrow> bool" where
  "is_Interfere e = (case e of Interfere _ \<Rightarrow> True | _ \<Rightarrow> False)"

definition no_interference :: "world \<Rightarrow> bool" where
  "no_interference w = list_all (\<lambda>e. \<not> is_Interfere e) (script w)"

definition life_at :: "world \<Rightarrow> string \<Rightarrow> Life option" where
  "life_at w i = map_option Life (spaces (db w) i)"

section \<open>Properties of the skew computations\<close>

subsection \<open>Wrap-around and truncated division\<close>


lemma wrap64_id: "is_int64 x \<Longrightarrow> wrap64 x = x"
  by (simp add: wrap64_def is_int64_def)

lemma wrap32_id: "- (2 ^ 31) \<le> x \<Longrightarrow> x < 2 ^ 31 \<Longrightarrow> wrap32 x = x"
  by (simp add: wrap32_def)

lemma is_int64_wrap64: "is_int64 (wrap64 x)"
  by (simp add: wrap64_def is_int64_def)

lemma wrap64_mod: "wrap64 x mod 2 ^ 64 = x mod 2 ^ 64"
proof -
  have "wrap64 x mod 2 ^ 64 = ((x + 2 ^ 63) mod 2 ^ 64 - 2 ^ 63) mod 2 ^ 64"
    by (simp only: wrap64_def)
  also have "\<dots> = (x + 2 ^ 63 - 2 ^ 63) mod 2 ^ 64"
    by (rule mod_diff_left_eq)
  finally show ?thesis by simp
qed

lemma wrap64_cong: "x mod 2 ^ 64 = y mod 2 ^ 64 \<Longrightarrow> wrap64 x = wrap64 y"
proof -
  assume "x mod 2 ^ 64 = y mod 2 ^ 64"
  then have "(x + 2 ^ 63) mod 2 ^ 64 = (y + 2 ^ 63) mod 2 ^ 64"
    by (rule mod_add_cong) simp
  then show ?thesis by (simp only: wrap64_def)
qed

lemma wrap64_add_left: "wrap64 (wrap64 x + y) = wrap64 (x + y)"
  by (rule wrap64_cong, rule mod_add_cong, rule wrap64_mod, rule refl)

lemma wrap64_mult_left: "wrap64 (wrap64 x * y) = wrap64 (x * y)"
  by (rule wrap64_cong, rule mod_mult_cong, rule wrap64_mod, rule refl)

lemma tdiv_tmod: "tdiv d 1000000000 * 1000000000 + tmod d 1000000000 = d"
  by (simp add: tmod_def)

lemma tdiv_nonneg: "0 \<le> d \<Longrightarrow> tdiv d 1000000000 = d div 1000000000"
  by (simp add: tdiv_def)

lemma tdiv_neg: "d < 0 \<Longrightarrow> tdiv d 1000000000 = - ((- d) div 1000000000)"
  by (simp add: tdiv_def)

lemma tmod_nonneg: "0 \<le> d \<Longrightarrow> tmod d 1000000000 = d mod 1000000000"
  by (simp add: tmod_def tdiv_nonneg minus_mult_div_eq_mod)

lemma tmod_neg: "d < 0 \<Longrightarrow> tmod d 1000000000 = - ((- d) mod 1000000000)"
  by (simp add: tmod_def tdiv_neg minus_mult_div_eq_mod [symmetric])

lemma tmod_bounds: "- 1000000000 < tmod d 1000000000 \<and> tmod d 1000000000 < 1000000000"
proof (cases "0 \<le> d")
  case True
  have "0 \<le> d mod 1000000000" "d mod 1000000000 < 1000000000" by simp_all
  then show ?thesis using True by (simp add: tmod_nonneg)
next
  case False
  have "0 \<le> (- d) mod 1000000000" "(- d) mod 1000000000 < 1000000000" by simp_all
  then show ?thesis using False by (simp add: tmod_neg)
qed

lemma divmod_unique:
  fixes a s n :: int
  assumes "a = s * 1000000000 + n" "0 \<le> n" "n < 1000000000"
  shows "a div 1000000000 = s" "a mod 1000000000 = n"
  using assms by (simp_all add: div_pos_pos_trivial mod_pos_pos_trivial)

lemma Add_eq:
  assumes "wf_Time t"
  shows "Add t d = \<lparr>sec = wrap64 ((instant t + d) div 1000000000), nsec = (instant t + d) mod 1000000000\<rparr>"
proof -
  define q where "q = tdiv d 1000000000"
  define r where "r = tmod d 1000000000"
  have d: "d = q * 1000000000 + r" by (simp add: q_def r_def tdiv_tmod)
  have rb: "- 1000000000 < r" "r < 1000000000" using tmod_bounds [of d] by (simp_all add: r_def)
  have nb: "0 \<le> nsec t" "nsec t \<le> 999999999" using assms by (simp_all add: wf_Time_def)
  have w1: "wrap32 r = r" using rb by (simp add: wrap32_id)
  have w2: "wrap32 (nsec t + r) = nsec t + r" using rb nb by (simp add: wrap32_id)
  have tot: "instant t + d = (sec t + q) * 1000000000 + (nsec t + r)"
    using d by (simp add: instant_def algebra_simps)
  consider (hi) "nsec t + r \<ge> 1000000000" | (lo) "nsec t + r < 0" | (mid) "0 \<le> nsec t + r" "nsec t + r < 1000000000"
    by linarith
  then show ?thesis
  proof cases
    case hi
    have w3: "wrap32 (nsec t + r - 1000000000) = nsec t + r - 1000000000"
      using rb nb hi by (simp add: wrap32_id)
    have e: "instant t + d = (sec t + q + 1) * 1000000000 + (nsec t + r - 1000000000)"
      using tot by simp
    have "(instant t + d) div 1000000000 = sec t + q + 1"
      by (rule divmod_unique(1) [where s = "sec t + q + 1" and n = "nsec t + r - 1000000000"]) (use e hi rb nb in simp_all)
    moreover have "(instant t + d) mod 1000000000 = nsec t + r - 1000000000"
      by (rule divmod_unique(2) [where s = "sec t + q + 1" and n = "nsec t + r - 1000000000"]) (use e hi rb nb in simp_all)
    ultimately show ?thesis
      using hi by (simp add: Add_def Let_def w1 w2 w3 wrap64_add_left q_def [symmetric] r_def [symmetric])
  next
    case lo
    have w3: "wrap32 (nsec t + r + 1000000000) = nsec t + r + 1000000000"
      using rb nb lo by (simp add: wrap32_id)
    have e: "instant t + d = (sec t + q - 1) * 1000000000 + (nsec t + r + 1000000000)"
      using tot by simp
    have "(instant t + d) div 1000000000 = sec t + q - 1"
      by (rule divmod_unique(1) [where s = "sec t + q - 1" and n = "nsec t + r + 1000000000"]) (use e lo rb nb in simp_all)
    moreover have "(instant t + d) mod 1000000000 = nsec t + r + 1000000000"
      by (rule divmod_unique(2) [where s = "sec t + q - 1" and n = "nsec t + r + 1000000000"]) (use e lo rb nb in simp_all)
    moreover have "wrap64 (wrap64 (sec t + q) - 1) = wrap64 (sec t + q - 1)"
      using wrap64_add_left [of "sec t + q" "-1"] by simp
    ultimately show ?thesis
      using lo by (simp add: Add_def Let_def w1 w2 w3 q_def [symmetric] r_def [symmetric])
  next
    case mid
    have "(instant t + d) div 1000000000 = sec t + q"
      by (rule divmod_unique(1) [where s = "sec t + q" and n = "nsec t + r"]) (use tot mid rb nb in simp_all)
    moreover have "(instant t + d) mod 1000000000 = nsec t + r"
      by (rule divmod_unique(2) [where s = "sec t + q" and n = "nsec t + r"]) (use tot mid rb nb in simp_all)
    ultimately show ?thesis
      using mid by (simp add: Add_def Let_def w1 w2 q_def [symmetric] r_def [symmetric])
  qed
qed


lemma instant_divmod:
  assumes "wf_Time t"
  shows "instant t div 1000000000 = sec t" "instant t mod 1000000000 = nsec t"
  by (rule divmod_unique [where s = "sec t" and n = "nsec t"]; use assms in \<open>simp add: wf_Time_def instant_def\<close>)+

lemma wf_Time_Add: "wf_Time t \<Longrightarrow> wf_Time (Add t d)"
  by (simp add: Add_eq wf_Time_def is_int64_wrap64)

lemma instant_Add:
  assumes "wf_Time t" "representable (instant t + d)"
  shows "instant (Add t d) = instant t + d"
  using assms by (simp add: Add_eq instant_def representable_def wrap64_id)

lemma Sub_fits:
  assumes "wf_Time t" "wf_Time u" "fits_Duration (instant t - instant u)"
  shows "Sub t u = instant t - instant u"
proof -
  have nb: "0 \<le> nsec t" "nsec t \<le> 999999999" "0 \<le> nsec u" "nsec u \<le> 999999999"
    using assms by (simp_all add: wf_Time_def)
  have w: "wrap32 (nsec t - nsec u) = nsec t - nsec u"
    using nb by (simp add: wrap32_id)
  have i: "is_int64 (instant t - instant u)"
    using assms(3) by (simp add: fits_Duration_def is_int64_def minDuration_def maxDuration_def)
  have "wrap64 (wrap64 (wrap64 (sec t - sec u) * Second) + wrap32 (nsec t - nsec u))
        = wrap64 ((sec t - sec u) * Second + (nsec t - nsec u))"
    by (simp only: w wrap64_mult_left wrap64_add_left)
  also have "(sec t - sec u) * Second + (nsec t - nsec u) = instant t - instant u"
    by (simp add: instant_def Second_def algebra_simps)
  finally have d: "wrap64 (wrap64 (wrap64 (sec t - sec u) * Second) + wrap32 (nsec t - nsec u))
        = instant t - instant u"
    using i by (simp add: wrap64_id)
  have "Add u (instant t - instant u) = t"
    using assms(1,2) by (simp add: Add_eq instant_divmod wrap64_id wf_Time_def)
  then show ?thesis
    by (simp add: Sub_def Let_def d Equal_def)
qed

lemma After_instant:
  assumes "wf_Time t" "wf_Time u"
  shows "After t u \<longleftrightarrow> instant u < instant t"
proof -
  have nb: "0 \<le> nsec t" "nsec t \<le> 999999999" "0 \<le> nsec u" "nsec u \<le> 999999999"
    using assms by (simp_all add: wf_Time_def)
  show ?thesis
  proof (cases "sec t = sec u")
    case True
    then show ?thesis by (simp add: After_def instant_def)
  next
    case False
    then consider "sec t < sec u" | "sec u < sec t" by linarith
    then show ?thesis
    proof cases
      case 1
      then have "sec t + 1 \<le> sec u" by simp
      then have "(sec t + 1) * 1000000000 \<le> sec u * 1000000000" by (simp only: mult_right_mono)
      then show ?thesis using 1 nb by (simp add: After_def instant_def algebra_simps)
    next
      case 2
      then have "sec u + 1 \<le> sec t" by simp
      then have "(sec u + 1) * 1000000000 \<le> sec t * 1000000000" by (simp only: mult_right_mono)
      then show ?thesis using 2 nb by (simp add: After_def instant_def algebra_simps)
    qed
  qed
qed

lemma Before_instant:
  assumes "wf_Time t" "wf_Time u"
  shows "Before t u \<longleftrightarrow> instant t < instant u"
  using After_instant [OF assms(2,1)] by (auto simp: After_def Before_def)

lemma isZero_instants:
  "isZero skew \<Longrightarrow> instant (LastWrite skew) = 0 \<and> instant (ReadAfter skew) = 0 \<and> instant (ReadBefore skew) = 0"
  by (simp add: isZero_def IsZero_def instant_def)

lemma instant_Earliest:
  assumes "wf_Skew skew" "wf_Time remote"
    and "isZero skew \<or>
         fits_Duration (instant remote - instant (LastWrite skew)) \<and>
         representable (instant (ReadAfter skew) + (instant remote - instant (LastWrite skew)))"
  shows "instant (Earliest skew remote) =
         instant (ReadAfter skew) + (instant remote - instant (LastWrite skew))"
proof (cases "isZero skew")
  case True
  then show ?thesis using isZero_instants [OF True] by (simp add: Earliest_def)
next
  case False
  with assms(3) have f: "fits_Duration (instant remote - instant (LastWrite skew))"
    and r: "representable (instant (ReadAfter skew) + (instant remote - instant (LastWrite skew)))"
    by simp_all
  have "Sub remote (LastWrite skew) = instant remote - instant (LastWrite skew)"
    using assms(1,2) f by (simp add: Sub_fits wf_Skew_def)
  then show ?thesis
    using False assms(1) r by (simp add: Earliest_def instant_Add wf_Skew_def)
qed

lemma instant_Latest:
  assumes "wf_Skew skew" "wf_Time remote"
    and "isZero skew \<or>
         fits_Duration (instant remote - instant (LastWrite skew)) \<and>
         representable (instant (ReadBefore skew) + (instant remote - instant (LastWrite skew)))"
  shows "instant (Latest skew remote) =
         instant (ReadBefore skew) + (instant remote - instant (LastWrite skew))"
proof (cases "isZero skew")
  case True
  then show ?thesis using isZero_instants [OF True] by (simp add: Latest_def)
next
  case False
  with assms(3) have f: "fits_Duration (instant remote - instant (LastWrite skew))"
    and r: "representable (instant (ReadBefore skew) + (instant remote - instant (LastWrite skew)))"
    by simp_all
  have "Sub remote (LastWrite skew) = instant remote - instant (LastWrite skew)"
    using assms(1,2) f by (simp add: Sub_fits wf_Skew_def)
  then show ?thesis
    using False assms(1) r by (simp add: Latest_def instant_Add wf_Skew_def)
qed

lemma wf_Time_Earliest: "wf_Skew skew \<Longrightarrow> wf_Time remote \<Longrightarrow> wf_Time (Earliest skew remote)"
  by (simp add: Earliest_def wf_Time_Add wf_Skew_def)

lemma wf_Time_Latest: "wf_Skew skew \<Longrightarrow> wf_Time remote \<Longrightarrow> wf_Time (Latest skew remote)"
  by (simp add: Latest_def wf_Time_Add wf_Skew_def)

lemma Add_seconds:
  assumes "wf_Time t" "is_int64 (sec t + k)"
  shows "Add t (k * Second) = \<lparr>sec = sec t + k, nsec = nsec t\<rparr>"
proof -
  have e: "instant t + k * Second = (sec t + k) * 1000000000 + nsec t"
    by (simp add: instant_def Second_def algebra_simps)
  have "(instant t + k * Second) div 1000000000 = sec t + k"
       "(instant t + k * Second) mod 1000000000 = nsec t"
    by (rule divmod_unique [where s = "sec t + k" and n = "nsec t"]; use assms(1) e in \<open>simp add: wf_Time_def\<close>)+
  then show ?thesis using assms by (simp add: Add_eq wrap64_id)
qed

subsection \<open>Skew arithmetic\<close>

text \<open>
  C2 as stated fails: with \<^verbatim>\<open>LastWrite\<close> left at the zero time, both local reads
  and the remote time at 2016-01-01 00:00:00 UTC, the remote time lies more than 292
  years after \<^verbatim>\<open>LastWrite\<close>, \<^verbatim>\<open>Sub\<close> saturates at the largest \<^verbatim>\<open>Duration\<close>, and
  \<^verbatim>\<open>Earliest\<close> is \<^verbatim>\<open>ReadAfter\<close> plus about 292 years instead of
  \<^verbatim>\<open>ReadAfter + (remote - LastWrite)\<close>.
\<close>

theorem skew_arithmetic_counterexample:
  "Earliest \<lparr>LastWrite = \<lparr>sec = 0, nsec = 0\<rparr>,
             ReadAfter = \<lparr>sec = 63587203200, nsec = 0\<rparr>,
             ReadBefore = \<lparr>sec = 63587203200, nsec = 0\<rparr>\<rparr> \<lparr>sec = 63587203200, nsec = 0\<rparr>
   = \<lparr>sec = 72810575236, nsec = 854775807\<rparr>
   \<and> instant \<lparr>sec = 72810575236, nsec = 854775807\<rparr>
     \<noteq> instant \<lparr>sec = 63587203200, nsec = 0\<rparr>
       + (instant \<lparr>sec = 63587203200, nsec = 0\<rparr> - instant \<lparr>sec = 0, nsec = 0\<rparr>)"
  by (simp add: Earliest_def isZero_def IsZero_def Sub_def Add_def Let_def wrap64_def
      wrap32_def tdiv_def tmod_def Equal_def Before_def Second_def maxDuration_def
      minDuration_def instant_def)

text \<open>
  C2, amended. Whenever \<^verbatim>\<open>remote - LastWrite\<close> fits in a \<^verbatim>\<open>Duration\<close> and the two
  results are instants a \<^verbatim>\<open>Time\<close> can hold (or the record is the zero value),
  \<^verbatim>\<open>Earliest(remote)\<close> is the instant \<^verbatim>\<open>ReadAfter + (remote - LastWrite)\<close> and
  \<^verbatim>\<open>Latest(remote)\<close> is \<^verbatim>\<open>ReadBefore + (remote - LastWrite)\<close>. For
  \<^verbatim>\<open>LastWrite = T0\<close>, \<^verbatim>\<open>ReadAfter = T0 - 1s\<close>, \<^verbatim>\<open>ReadBefore = T0 + 1s\<close> and
  \<^verbatim>\<open>remote = T0 + 10s\<close> the results are \<^verbatim>\<open>T0 + 9s\<close> and \<^verbatim>\<open>T0 + 11s\<close>. For a record
  whose three fields are all the zero time, both functions return \<^verbatim>\<open>remote\<close> itself.
\<close>

theorem skew_arithmetic:
  "(wf_Skew skew \<and> wf_Time remote \<and>
      (isZero skew \<or>
       fits_Duration (instant remote - instant (LastWrite skew)) \<and>
       representable (instant (ReadAfter skew) + (instant remote - instant (LastWrite skew))) \<and>
       representable (instant (ReadBefore skew) + (instant remote - instant (LastWrite skew))))
    \<longrightarrow> instant (Earliest skew remote)
          = instant (ReadAfter skew) + (instant remote - instant (LastWrite skew)) \<and>
        instant (Latest skew remote)
          = instant (ReadBefore skew) + (instant remote - instant (LastWrite skew)))
   \<and> (wf_Time T0 \<and> is_int64 (sec T0 - 1) \<and> is_int64 (sec T0 + 11)
    \<longrightarrow> Earliest \<lparr>LastWrite = T0, ReadAfter = Add T0 (- Second), ReadBefore = Add T0 Second\<rparr>
          (Add T0 (10 * Second)) = Add T0 (9 * Second) \<and>
        Latest \<lparr>LastWrite = T0, ReadAfter = Add T0 (- Second), ReadBefore = Add T0 Second\<rparr>
          (Add T0 (10 * Second)) = Add T0 (11 * Second))
   \<and> (isZero z \<longrightarrow> Earliest z r = r \<and> Latest z r = r)"
proof (intro conjI impI)
  assume a: "wf_Skew skew \<and> wf_Time remote \<and>
      (isZero skew \<or>
       fits_Duration (instant remote - instant (LastWrite skew)) \<and>
       representable (instant (ReadAfter skew) + (instant remote - instant (LastWrite skew))) \<and>
       representable (instant (ReadBefore skew) + (instant remote - instant (LastWrite skew))))"
  show "instant (Earliest skew remote)
          = instant (ReadAfter skew) + (instant remote - instant (LastWrite skew))"
    by (rule instant_Earliest) (use a in auto)
  show "instant (Latest skew remote)
          = instant (ReadBefore skew) + (instant remote - instant (LastWrite skew))"
    by (rule instant_Latest) (use a in auto)
next
  assume b: "wf_Time T0 \<and> is_int64 (sec T0 - 1) \<and> is_int64 (sec T0 + 11)"
  define sk where "sk = \<lparr>LastWrite = T0, ReadAfter = Add T0 (- Second), ReadBefore = Add T0 Second\<rparr>"
  have wf: "wf_Time T0" using b by simp
  have rng: "is_int64 (sec T0 + k)" if "- 1 \<le> k" "k \<le> 11" for k
    using b that by (simp add: is_int64_def)
  have m1: "Add T0 (- Second) = \<lparr>sec = sec T0 - 1, nsec = nsec T0\<rparr>"
    using Add_seconds [OF wf, of "- 1"] rng [of "- 1"] by simp
  have p1: "Add T0 Second = \<lparr>sec = sec T0 + 1, nsec = nsec T0\<rparr>"
    using Add_seconds [OF wf, of 1] rng [of 1] by simp
  have p10: "Add T0 (10 * Second) = \<lparr>sec = sec T0 + 10, nsec = nsec T0\<rparr>"
    using Add_seconds [OF wf, of 10] rng [of 10] by simp
  have p9: "Add T0 (9 * Second) = \<lparr>sec = sec T0 + 9, nsec = nsec T0\<rparr>"
    using Add_seconds [OF wf, of 9] rng [of 9] by simp
  have p11: "Add T0 (11 * Second) = \<lparr>sec = sec T0 + 11, nsec = nsec T0\<rparr>"
    using Add_seconds [OF wf, of 11] rng [of 11] by simp
  have wfs: "wf_Time \<lparr>sec = sec T0 + k, nsec = nsec T0\<rparr>" if "- 1 \<le> k" "k \<le> 11" for k
    using wf rng [OF that] by (simp add: wf_Time_def)
  have nz: "\<not> isZero sk"
    by (simp add: sk_def isZero_def IsZero_def m1)
  have "instant \<lparr>sec = sec T0 + 10, nsec = nsec T0\<rparr> - instant T0 = 10 * Second"
    by (simp add: instant_def Second_def)
  moreover have "fits_Duration (10 * Second)"
    by (simp add: fits_Duration_def Second_def minDuration_def maxDuration_def)
  ultimately have d: "Sub \<lparr>sec = sec T0 + 10, nsec = nsec T0\<rparr> T0 = 10 * Second"
    using Sub_fits [OF wfs [of 10] wf] by simp
  have e: "Add \<lparr>sec = sec T0 - 1, nsec = nsec T0\<rparr> (10 * Second) = \<lparr>sec = sec T0 + 9, nsec = nsec T0\<rparr>"
    using Add_seconds [OF wfs [of "- 1"], of 10] rng [of 9] by (simp add: ac_simps)
  have l: "Add \<lparr>sec = sec T0 + 1, nsec = nsec T0\<rparr> (10 * Second) = \<lparr>sec = sec T0 + 11, nsec = nsec T0\<rparr>"
    using Add_seconds [OF wfs [of 1], of 10] rng [of 11] by (simp add: ac_simps)
  show "Earliest \<lparr>LastWrite = T0, ReadAfter = Add T0 (- Second), ReadBefore = Add T0 Second\<rparr>
          (Add T0 (10 * Second)) = Add T0 (9 * Second)"
    using nz by (simp add: Earliest_def sk_def m1 p1 p10 p9 d e)
  show "Latest \<lparr>LastWrite = T0, ReadAfter = Add T0 (- Second), ReadBefore = Add T0 Second\<rparr>
          (Add T0 (10 * Second)) = Add T0 (11 * Second)"
    using nz by (simp add: Latest_def sk_def m1 p1 p10 p11 d l)
next
  assume "isZero z"
  then show "Earliest z r = r" by (simp add: Earliest_def)
next
  assume "isZero z"
  then show "Latest z r = r" by (simp add: Latest_def)
qed

theorem skew_arithmetic_witness:
  "instant (Earliest \<lparr>LastWrite = \<lparr>sec = 63587203200, nsec = 500\<rparr>,
                      ReadAfter = \<lparr>sec = 63587203199, nsec = 999999000\<rparr>,
                      ReadBefore = \<lparr>sec = 63587203201, nsec = 2000\<rparr>\<rparr>
              \<lparr>sec = 63587203100, nsec = 700\<rparr>) = 63587203099999999200
   \<and> instant (Latest \<lparr>LastWrite = \<lparr>sec = 63587203200, nsec = 500\<rparr>,
                      ReadAfter = \<lparr>sec = 63587203199, nsec = 999999000\<rparr>,
                      ReadBefore = \<lparr>sec = 63587203201, nsec = 2000\<rparr>\<rparr>
              \<lparr>sec = 63587203100, nsec = 700\<rparr>) = 63587203101000002200
   \<and> Earliest \<lparr>LastWrite = \<lparr>sec = 63587203200, nsec = 0\<rparr>,
               ReadAfter = \<lparr>sec = 63587203199, nsec = 0\<rparr>,
               ReadBefore = \<lparr>sec = 63587203201, nsec = 0\<rparr>\<rparr>
        \<lparr>sec = 63587203210, nsec = 0\<rparr> = \<lparr>sec = 63587203209, nsec = 0\<rparr>
   \<and> Latest \<lparr>LastWrite = \<lparr>sec = 63587203200, nsec = 0\<rparr>,
             ReadAfter = \<lparr>sec = 63587203199, nsec = 0\<rparr>,
             ReadBefore = \<lparr>sec = 63587203201, nsec = 0\<rparr>\<rparr>
        \<lparr>sec = 63587203210, nsec = 0\<rparr> = \<lparr>sec = 63587203211, nsec = 0\<rparr>
   \<and> Earliest \<lparr>LastWrite = \<lparr>sec = 0, nsec = 0\<rparr>, ReadAfter = \<lparr>sec = 0, nsec = 0\<rparr>,
               ReadBefore = \<lparr>sec = 0, nsec = 0\<rparr>\<rparr> \<lparr>sec = 63587203210, nsec = 5\<rparr>
       = \<lparr>sec = 63587203210, nsec = 5\<rparr>
   \<and> Latest \<lparr>LastWrite = \<lparr>sec = 0, nsec = 0\<rparr>, ReadAfter = \<lparr>sec = 0, nsec = 0\<rparr>,
             ReadBefore = \<lparr>sec = 0, nsec = 0\<rparr>\<rparr> \<lparr>sec = 63587203210, nsec = 5\<rparr>
       = \<lparr>sec = 63587203210, nsec = 5\<rparr>"
proof -
  have add: "Add \<lparr>sec = 63587203200, nsec = 0\<rparr> (- Second) = \<lparr>sec = 63587203199, nsec = 0\<rparr>"
    "Add \<lparr>sec = 63587203200, nsec = 0\<rparr> Second = \<lparr>sec = 63587203201, nsec = 0\<rparr>"
    "Add \<lparr>sec = 63587203200, nsec = 0\<rparr> (10 * Second) = \<lparr>sec = 63587203210, nsec = 0\<rparr>"
    "Add \<lparr>sec = 63587203200, nsec = 0\<rparr> (9 * Second) = \<lparr>sec = 63587203209, nsec = 0\<rparr>"
    "Add \<lparr>sec = 63587203200, nsec = 0\<rparr> (11 * Second) = \<lparr>sec = 63587203211, nsec = 0\<rparr>"
    by (simp_all add: Add_def Let_def wrap64_def wrap32_def tdiv_def tmod_def Second_def)
  show ?thesis
    using skew_arithmetic
      [of "\<lparr>LastWrite = \<lparr>sec = 63587203200, nsec = 500\<rparr>,
            ReadAfter = \<lparr>sec = 63587203199, nsec = 999999000\<rparr>,
            ReadBefore = \<lparr>sec = 63587203201, nsec = 2000\<rparr>\<rparr>"
          "\<lparr>sec = 63587203100, nsec = 700\<rparr>"
          "\<lparr>sec = 63587203200, nsec = 0\<rparr>"
          "\<lparr>LastWrite = \<lparr>sec = 0, nsec = 0\<rparr>, ReadAfter = \<lparr>sec = 0, nsec = 0\<rparr>,
            ReadBefore = \<lparr>sec = 0, nsec = 0\<rparr>\<rparr>"
          "\<lparr>sec = 63587203210, nsec = 5\<rparr>"]
    by (simp add: add wf_Skew_def wf_Time_def is_int64_def isZero_def IsZero_def
        fits_Duration_def representable_def instant_def minDuration_def maxDuration_def)
qed

subsection \<open>Monotonicity\<close>

text \<open>
  C7 as stated fails: where the remote times lie more than 292 years after
  \<^verbatim>\<open>LastWrite\<close>, \<^verbatim>\<open>Sub\<close> saturates for both, and a later remote time gives the same
  \<^verbatim>\<open>Earliest\<close> and the same \<^verbatim>\<open>Latest\<close>, not a later one.
\<close>

theorem skew_monotonic_counterexample:
  "After \<lparr>sec = 63587203201, nsec = 0\<rparr> \<lparr>sec = 63587203200, nsec = 0\<rparr>
   \<and> \<not> After
       (Earliest \<lparr>LastWrite = \<lparr>sec = 0, nsec = 0\<rparr>,
                  ReadAfter = \<lparr>sec = 63587203200, nsec = 0\<rparr>,
                  ReadBefore = \<lparr>sec = 63587203200, nsec = 0\<rparr>\<rparr> \<lparr>sec = 63587203201, nsec = 0\<rparr>)
       (Earliest \<lparr>LastWrite = \<lparr>sec = 0, nsec = 0\<rparr>,
                  ReadAfter = \<lparr>sec = 63587203200, nsec = 0\<rparr>,
                  ReadBefore = \<lparr>sec = 63587203200, nsec = 0\<rparr>\<rparr> \<lparr>sec = 63587203200, nsec = 0\<rparr>)
   \<and> \<not> After
       (Latest \<lparr>LastWrite = \<lparr>sec = 0, nsec = 0\<rparr>,
                ReadAfter = \<lparr>sec = 63587203200, nsec = 0\<rparr>,
                ReadBefore = \<lparr>sec = 63587203200, nsec = 0\<rparr>\<rparr> \<lparr>sec = 63587203201, nsec = 0\<rparr>)
       (Latest \<lparr>LastWrite = \<lparr>sec = 0, nsec = 0\<rparr>,
                ReadAfter = \<lparr>sec = 63587203200, nsec = 0\<rparr>,
                ReadBefore = \<lparr>sec = 63587203200, nsec = 0\<rparr>\<rparr> \<lparr>sec = 63587203200, nsec = 0\<rparr>)"
  by (simp add: Earliest_def Latest_def isZero_def IsZero_def Sub_def Add_def Let_def
      wrap64_def wrap32_def tdiv_def tmod_def Equal_def Before_def After_def Second_def
      maxDuration_def minDuration_def)

text \<open>
  C7, amended. On one record, for \<^verbatim>\<open>remote2\<close> after \<^verbatim>\<open>remote1\<close>, where both
  differences from \<^verbatim>\<open>LastWrite\<close> fit in a \<^verbatim>\<open>Duration\<close> and the results are instants a
  \<^verbatim>\<open>Time\<close> can hold (or the record is the zero value), \<^verbatim>\<open>Earliest(remote2)\<close> is after
  \<^verbatim>\<open>Earliest(remote1)\<close> and \<^verbatim>\<open>Latest(remote2)\<close> is after \<^verbatim>\<open>Latest(remote1)\<close>.
\<close>

theorem skew_monotonic:
  assumes "wf_Skew skew" "wf_Time remote1" "wf_Time remote2"
    and "After remote2 remote1"
    and "isZero skew \<or>
         fits_Duration (instant remote1 - instant (LastWrite skew)) \<and>
         fits_Duration (instant remote2 - instant (LastWrite skew)) \<and>
         representable (instant (ReadAfter skew) + (instant remote1 - instant (LastWrite skew))) \<and>
         representable (instant (ReadAfter skew) + (instant remote2 - instant (LastWrite skew))) \<and>
         representable (instant (ReadBefore skew) + (instant remote1 - instant (LastWrite skew))) \<and>
         representable (instant (ReadBefore skew) + (instant remote2 - instant (LastWrite skew)))"
  shows "After (Earliest skew remote2) (Earliest skew remote1)
       \<and> After (Latest skew remote2) (Latest skew remote1)"
proof -
  have lt: "instant remote1 < instant remote2"
    using assms(2,3,4) by (simp add: After_instant)
  have e1: "instant (Earliest skew remote1)
            = instant (ReadAfter skew) + (instant remote1 - instant (LastWrite skew))"
    by (rule instant_Earliest) (use assms in auto)
  have e2: "instant (Earliest skew remote2)
            = instant (ReadAfter skew) + (instant remote2 - instant (LastWrite skew))"
    by (rule instant_Earliest) (use assms in auto)
  have l1: "instant (Latest skew remote1)
            = instant (ReadBefore skew) + (instant remote1 - instant (LastWrite skew))"
    by (rule instant_Latest) (use assms in auto)
  have l2: "instant (Latest skew remote2)
            = instant (ReadBefore skew) + (instant remote2 - instant (LastWrite skew))"
    by (rule instant_Latest) (use assms in auto)
  have "After (Earliest skew remote2) (Earliest skew remote1)"
    using lt e1 e2 assms(1,2,3) by (simp add: After_instant wf_Time_Earliest)
  moreover have "After (Latest skew remote2) (Latest skew remote1)"
    using lt l1 l2 assms(1,2,3) by (simp add: After_instant wf_Time_Latest)
  ultimately show ?thesis by simp
qed

theorem skew_monotonic_witness:
  "After \<lparr>sec = 63587203300, nsec = 1\<rparr> \<lparr>sec = 63587203300, nsec = 0\<rparr>
   \<and> After
       (Earliest \<lparr>LastWrite = \<lparr>sec = 63587203200, nsec = 500\<rparr>,
                  ReadAfter = \<lparr>sec = 63587203199, nsec = 999999000\<rparr>,
                  ReadBefore = \<lparr>sec = 63587203201, nsec = 2000\<rparr>\<rparr> \<lparr>sec = 63587203300, nsec = 1\<rparr>)
       (Earliest \<lparr>LastWrite = \<lparr>sec = 63587203200, nsec = 500\<rparr>,
                  ReadAfter = \<lparr>sec = 63587203199, nsec = 999999000\<rparr>,
                  ReadBefore = \<lparr>sec = 63587203201, nsec = 2000\<rparr>\<rparr> \<lparr>sec = 63587203300, nsec = 0\<rparr>)
   \<and> After
       (Latest \<lparr>LastWrite = \<lparr>sec = 63587203200, nsec = 500\<rparr>,
                ReadAfter = \<lparr>sec = 63587203199, nsec = 999999000\<rparr>,
                ReadBefore = \<lparr>sec = 63587203201, nsec = 2000\<rparr>\<rparr> \<lparr>sec = 63587203300, nsec = 1\<rparr>)
       (Latest \<lparr>LastWrite = \<lparr>sec = 63587203200, nsec = 500\<rparr>,
                ReadAfter = \<lparr>sec = 63587203199, nsec = 999999000\<rparr>,
                ReadBefore = \<lparr>sec = 63587203201, nsec = 2000\<rparr>\<rparr> \<lparr>sec = 63587203300, nsec = 0\<rparr>)"
proof -
  have "After \<lparr>sec = 63587203300, nsec = 1\<rparr> \<lparr>sec = 63587203300, nsec = 0\<rparr>"
    by (simp add: After_def)
  then show ?thesis
    using skew_monotonic
      [of "\<lparr>LastWrite = \<lparr>sec = 63587203200, nsec = 500\<rparr>,
            ReadAfter = \<lparr>sec = 63587203199, nsec = 999999000\<rparr>,
            ReadBefore = \<lparr>sec = 63587203201, nsec = 2000\<rparr>\<rparr>"
          "\<lparr>sec = 63587203300, nsec = 0\<rparr>" "\<lparr>sec = 63587203300, nsec = 1\<rparr>"]
    by (simp add: wf_Skew_def wf_Time_def is_int64_def isZero_def IsZero_def
        fits_Duration_def representable_def instant_def minDuration_def maxDuration_def)
qed

subsection \<open>Totality\<close>

text \<open>
  C8. \<^verbatim>\<open>Earliest\<close> and \<^verbatim>\<open>Latest\<close> are functions of the record and the remote time
  alone and have no failing branch: for every record and every remote time they return a
  well-formed \<^verbatim>\<open>Time\<close>. A remote time before \<^verbatim>\<open>LastWrite\<close> is handled like any
  other: the delta is negative, and the results lie before \<^verbatim>\<open>ReadAfter\<close> and
  \<^verbatim>\<open>ReadBefore\<close> by that amount.
\<close>

theorem skew_total:
  "(wf_Skew skew \<and> wf_Time remote
    \<longrightarrow> wf_Time (Earliest skew remote) \<and> wf_Time (Latest skew remote))
   \<and> (wf_Skew skew \<and> wf_Time remote \<and> Before remote (LastWrite skew) \<and>
      fits_Duration (instant remote - instant (LastWrite skew)) \<and>
      representable (instant (ReadAfter skew) + (instant remote - instant (LastWrite skew))) \<and>
      representable (instant (ReadBefore skew) + (instant remote - instant (LastWrite skew)))
    \<longrightarrow> Sub remote (LastWrite skew) < 0 \<and>
        instant (Earliest skew remote)
          = instant (ReadAfter skew) - (instant (LastWrite skew) - instant remote) \<and>
        instant (Latest skew remote)
          = instant (ReadBefore skew) - (instant (LastWrite skew) - instant remote) \<and>
        Before (Earliest skew remote) (ReadAfter skew) \<and>
        Before (Latest skew remote) (ReadBefore skew))"
proof (intro conjI impI)
  assume "wf_Skew skew \<and> wf_Time remote"
  then show "wf_Time (Earliest skew remote)" "wf_Time (Latest skew remote)"
    by (simp_all add: wf_Time_Earliest wf_Time_Latest)
next
  assume a: "wf_Skew skew \<and> wf_Time remote \<and> Before remote (LastWrite skew) \<and>
      fits_Duration (instant remote - instant (LastWrite skew)) \<and>
      representable (instant (ReadAfter skew) + (instant remote - instant (LastWrite skew))) \<and>
      representable (instant (ReadBefore skew) + (instant remote - instant (LastWrite skew)))"
  then have wf: "wf_Skew skew" "wf_Time remote" "wf_Time (LastWrite skew)"
    "wf_Time (ReadAfter skew)" "wf_Time (ReadBefore skew)"
    by (simp_all add: wf_Skew_def)
  have lt: "instant remote < instant (LastWrite skew)"
    using a wf by (simp add: Before_instant)
  have s: "Sub remote (LastWrite skew) = instant remote - instant (LastWrite skew)"
    using a wf by (simp add: Sub_fits)
  have e: "instant (Earliest skew remote)
           = instant (ReadAfter skew) + (instant remote - instant (LastWrite skew))"
    by (rule instant_Earliest) (use a in auto)
  have l: "instant (Latest skew remote)
           = instant (ReadBefore skew) + (instant remote - instant (LastWrite skew))"
    by (rule instant_Latest) (use a in auto)
  show "Sub remote (LastWrite skew) < 0" using s lt by simp
  show "instant (Earliest skew remote)
          = instant (ReadAfter skew) - (instant (LastWrite skew) - instant remote)"
    using e by simp
  show "instant (Latest skew remote)
          = instant (ReadBefore skew) - (instant (LastWrite skew) - instant remote)"
    using l by simp
  show "Before (Earliest skew remote) (ReadAfter skew)"
    using e lt wf by (simp add: Before_instant wf_Time_Earliest)
  show "Before (Latest skew remote) (ReadBefore skew)"
    using l lt wf by (simp add: Before_instant wf_Time_Latest)
qed

theorem skew_total_witness:
  "wf_Time (Earliest \<lparr>LastWrite = \<lparr>sec = 63587203200, nsec = 500\<rparr>,
                      ReadAfter = \<lparr>sec = 63587203199, nsec = 999999000\<rparr>,
                      ReadBefore = \<lparr>sec = 63587203201, nsec = 2000\<rparr>\<rparr>
              \<lparr>sec = 63587203100, nsec = 700\<rparr>)
   \<and> Before \<lparr>sec = 63587203100, nsec = 700\<rparr> \<lparr>sec = 63587203200, nsec = 500\<rparr>
   \<and> Sub \<lparr>sec = 63587203100, nsec = 700\<rparr> \<lparr>sec = 63587203200, nsec = 500\<rparr> < 0
   \<and> Before (Earliest \<lparr>LastWrite = \<lparr>sec = 63587203200, nsec = 500\<rparr>,
                      ReadAfter = \<lparr>sec = 63587203199, nsec = 999999000\<rparr>,
                      ReadBefore = \<lparr>sec = 63587203201, nsec = 2000\<rparr>\<rparr>
              \<lparr>sec = 63587203100, nsec = 700\<rparr>) \<lparr>sec = 63587203199, nsec = 999999000\<rparr>
   \<and> Before (Latest \<lparr>LastWrite = \<lparr>sec = 63587203200, nsec = 500\<rparr>,
                      ReadAfter = \<lparr>sec = 63587203199, nsec = 999999000\<rparr>,
                      ReadBefore = \<lparr>sec = 63587203201, nsec = 2000\<rparr>\<rparr>
              \<lparr>sec = 63587203100, nsec = 700\<rparr>) \<lparr>sec = 63587203201, nsec = 2000\<rparr>"
proof -
  have "Before \<lparr>sec = 63587203100, nsec = 700\<rparr> \<lparr>sec = 63587203200, nsec = 500\<rparr>"
    by (simp add: Before_def)
  then show ?thesis
    using skew_total
      [of "\<lparr>LastWrite = \<lparr>sec = 63587203200, nsec = 500\<rparr>,
            ReadAfter = \<lparr>sec = 63587203199, nsec = 999999000\<rparr>,
            ReadBefore = \<lparr>sec = 63587203201, nsec = 2000\<rparr>\<rparr>"
          "\<lparr>sec = 63587203100, nsec = 700\<rparr>"]
    by (simp add: wf_Skew_def wf_Time_def is_int64_def
        fits_Duration_def representable_def instant_def minDuration_def maxDuration_def)
qed

section \<open>Properties of the space operations\<close>


subsection \<open>The environment and the reads\<close>

lemma env_step_quiet: "script w = [] \<Longrightarrow> env_step w = (False, w)"
  by (simp add: env_step_def)

lemma env_step_calm:
  assumes "no_interference w" "env_step w = (f, w1)"
  shows "db w1 = db w" "no_interference w1"
  using assms
  by (auto simp: env_step_def no_interference_def is_Interfere_def split: list.splits event.splits)

lemma docID_idem: "docID s (docID s x) = docID s x"
  by (simp add: docID_def)

lemma FindId_spaces_calm:
  assumes "no_interference w" "FindId_spaces s i w = (r, w1)"
  shows "db w1 = db w" "no_interference w1"
  using assms env_step_calm [of w]
  by (auto simp: FindId_spaces_def split: prod.splits bool.splits option.splits)

lemma FindId_subnets_calm:
  assumes "no_interference w" "FindId_subnets s i w = (r, w1)"
  shows "db w1 = db w" "no_interference w1"
  using assms env_step_calm [of w]
  by (auto simp: FindId_subnets_def split: prod.splits bool.splits option.splits)

lemma Space_calm:
  assumes "no_interference w" "Space s name w = (r, w1)"
  shows "db w1 = db w" "no_interference w1"
  using assms FindId_spaces_calm [of w s name]
  by (auto simp: Space_def split: prod.splits found.splits)

lemma Subnet_calm:
  assumes "no_interference w" "Subnet s cidr w = (r, w1)"
  shows "db w1 = db w" "no_interference w1"
  using assms FindId_subnets_calm [of w s cidr]
  by (auto simp: Subnet_def split: prod.splits found.splits)

lemma Refresh_calm:
  assumes "no_interference w" "Refresh sp w = (r, sp', w1)"
  shows "db w1 = db w" "no_interference w1"
  using assms FindId_spaces_calm [of w "st sp" "DocID (doc sp)"]
  by (auto simp: Refresh_def split: prod.splits found.splits)

lemma AddSpace_subnets_calm:
  "no_interference w \<Longrightarrow> AddSpace_subnets s subnetIds w = (r, w1)
   \<Longrightarrow> db w1 = db w \<and> no_interference w1"
proof (induction subnetIds arbitrary: w)
  case Nil
  then show ?case by simp
next
  case (Cons subnetId rest)
  obtain r0 w0 where s0: "Subnet s subnetId w = (r0, w0)" by (cases "Subnet s subnetId w")
  have c: "db w0 = db w" "no_interference w0"
    using Subnet_calm [OF Cons.prems(1) s0] by simp_all
  show ?case
  proof (cases "\<exists>err. r0 = Inl err \<and> IsNotFound err")
    case True
    then show ?thesis using Cons.prems(2) s0 c by auto
  next
    case False
    then have "AddSpace_subnets s rest w0 = (r, w1)"
      using Cons.prems(2) s0 by (auto split: sum.splits if_splits)
    then show ?thesis using Cons.IH [OF c(2)] c(1) by simp
  qed
qed

lemma AddSpace_aborted_calm:
  assumes "no_interference w" "AddSpace_aborted s name providerId subnetIds newSpace w = (e, w')"
  shows "db w' = db w" "no_interference w'"
proof -
  obtain r1 w1 where s1: "Space s name w = (r1, w1)" by (cases "Space s name w")
  have c1: "db w1 = db w" "no_interference w1" using Space_calm [OF assms(1) s1] by simp_all
  obtain r2 w2 where s2: "AddSpace_subnets s subnetIds w1 = (r2, w2)"
    by (cases "AddSpace_subnets s subnetIds w1")
  have c2: "db w2 = db w" "no_interference w2"
    using AddSpace_subnets_calm [OF c1(2) s2] c1(1) by simp_all
  obtain r3 sp3 w3 where s3: "Refresh newSpace w2 = (r3, sp3, w3)"
    by (cases "Refresh newSpace w2")
  have c3: "db w3 = db w" "no_interference w3"
    using Refresh_calm [OF c2(2) s3] c2(1) by simp_all
  have "w' = w1 \<or> w' = w2 \<or> w' = w3"
    using assms(2) s1 s2 s3
    by (auto simp: AddSpace_aborted_def split: sum.splits option.splits if_splits)
  then show "db w' = db w" "no_interference w'"
    using c1 c2 c3 by auto
qed

subsection \<open>What a transaction changes\<close>

lemma apply_op_spaces_frame: "C op \<noteq> spacesC \<Longrightarrow> spaces (apply_op d op) = spaces d"
  by (cases "C op")
     (auto simp: apply_op_def remove_doc_def insert_doc_def update_doc_def
           split: option.splits insertion.splits update.splits)

lemma foldl_apply_op_spaces_frame:
  "\<forall>op \<in> set ops. C op \<noteq> spacesC \<Longrightarrow> spaces (foldl apply_op d ops) = spaces d"
  by (induction ops arbitrary: d) (simp_all add: apply_op_spaces_frame)

lemma apply_op_subnets_frame: "C op \<noteq> subnetsC \<Longrightarrow> subnets (apply_op d op) = subnets d"
  by (cases "C op")
     (auto simp: apply_op_def remove_doc_def insert_doc_def update_doc_def
           split: option.splits insertion.splits update.splits)

lemma apply_op_providerIDs_frame:
  "C op \<noteq> providerIDsC \<Longrightarrow> providerIDs (apply_op d op) = providerIDs d"
  by (cases "C op")
     (auto simp: apply_op_def remove_doc_def insert_doc_def update_doc_def
           split: option.splits insertion.splits update.splits)

lemma foldl_apply_op_providerIDs_frame:
  "\<forall>op \<in> set ops. C op \<noteq> providerIDsC \<Longrightarrow> providerIDs (foldl apply_op d ops) = providerIDs d"
  by (induction ops arbitrary: d) (simp_all add: apply_op_providerIDs_frame)


subsection \<open>The transaction of AddSpace\<close>

lemma AddSpace_ops_resolved:
  "map (\<lambda>op. op\<lparr>Id := docID s (Id op)\<rparr>) (AddSpace_ops s name providerId subnetIds isPublic)
   = AddSpace_ops s name providerId subnetIds isPublic"
  by (simp add: AddSpace_ops_def Let_def networkEntityGlobalKeyOp_def
      networkEntityGlobalKey_def docID_idem comp_def)

lemma AddSpace_asserts:
  "list_all (assert_holds d) (AddSpace_ops s name providerId subnetIds isPublic) \<longleftrightarrow>
     spaces d (docID s name) = None \<and>
     (providerId \<noteq> [] \<longrightarrow> networkEntityGlobalKey s ''space'' providerId \<notin> providerIDs d) \<and>
     (\<forall>subnetId \<in> set subnetIds. subnets d (docID s subnetId) \<noteq> None)"
proof -
  have "list_all (assert_holds d)
          (map (\<lambda>subnetId. \<lparr>C = subnetsC, Id = docID s subnetId, Assert = DocExists,
                             Insert = None, Update = Some (SetSpaceName name),
                             Remove_flag = False\<rparr>) subnetIds)
        \<longleftrightarrow> (\<forall>subnetId \<in> set subnetIds. subnets d (docID s subnetId) \<noteq> None)"
    by (induction subnetIds) (simp_all add: assert_holds_def doc_exists_def)
  then show ?thesis
    by (simp add: AddSpace_ops_def Let_def networkEntityGlobalKeyOp_def assert_holds_def
        doc_exists_def)
qed

lemma stamp_subnets:
  "subnets (foldl apply_op d
      (map (\<lambda>subnetId. \<lparr>C = subnetsC, Id = docID s subnetId, Assert = DocExists,
                         Insert = None, Update = Some (SetSpaceName name),
                         Remove_flag = False\<rparr>) subnetIds)) i
   = (if i \<in> docID s ` set subnetIds
      then map_option (\<lambda>x. x\<lparr>SpaceName := name\<rparr>) (subnets d i)
      else subnets d i)"
proof (induction subnetIds arbitrary: d)
  case Nil
  then show ?case by simp
next
  case (Cons a rest)
  let ?op = "\<lparr>C = subnetsC, Id = docID s a, Assert = DocExists,
              Insert = None, Update = Some (SetSpaceName name), Remove_flag = False\<rparr>"
  have one: "subnets (apply_op d ?op) j
             = (if j = docID s a then map_option (\<lambda>x. x\<lparr>SpaceName := name\<rparr>) (subnets d j)
                else subnets d j)" for j
    by (simp add: apply_op_def update_doc_def split: option.splits)
  show ?case
    by (simp add: Cons.IH one option.map_comp comp_def)
qed

lemma stamp_spaces:
  "spaces (foldl apply_op d
      (map (\<lambda>subnetId. \<lparr>C = subnetsC, Id = docID s subnetId, Assert = DocExists,
                         Insert = None, Update = Some (SetSpaceName name),
                         Remove_flag = False\<rparr>) subnetIds)) = spaces d"
  by (rule foldl_apply_op_spaces_frame) simp

lemma stamp_providerIDs:
  "providerIDs (foldl apply_op d
      (map (\<lambda>subnetId. \<lparr>C = subnetsC, Id = docID s subnetId, Assert = DocExists,
                         Insert = None, Update = Some (SetSpaceName name),
                         Remove_flag = False\<rparr>) subnetIds)) = providerIDs d"
  by (rule foldl_apply_op_providerIDs_frame) simp

lemma AddSpace_apply:
  assumes "spaces d (docID s name) = None"
    and "providerId \<noteq> [] \<longrightarrow> networkEntityGlobalKey s ''space'' providerId \<notin> providerIDs d"
  shows "spaces (foldl apply_op d (AddSpace_ops s name providerId subnetIds isPublic))
         = (spaces d)(docID s name \<mapsto>
              \<lparr>DocID = docID s name, ModelUUID = stModelUUID s, Life = Alive, Name = name,
               IsPublic = isPublic, ProviderId = providerId\<rparr>)"
    and "providerIDs (foldl apply_op d (AddSpace_ops s name providerId subnetIds isPublic))
         = (if providerId \<noteq> [] then insert (networkEntityGlobalKey s ''space'' providerId) (providerIDs d)
            else providerIDs d)"
    and "subnets (foldl apply_op d (AddSpace_ops s name providerId subnetIds isPublic)) i
         = (if i \<in> docID s ` set subnetIds
            then map_option (\<lambda>x. x\<lparr>SpaceName := name\<rparr>) (subnets d i)
            else subnets d i)"
  using assms
  by (simp_all add: AddSpace_ops_def Let_def stamp_spaces stamp_providerIDs stamp_subnets
      networkEntityGlobalKeyOp_def apply_op_def insert_doc_def doc_exists_def)

lemma runTransaction_AddSpace:
  "runTransaction s (AddSpace_ops s name providerId subnetIds isPublic) w =
     (case env_step w of
        (True, w1) \<Rightarrow> (Some StoreError, w1)
      | (False, w1) \<Rightarrow>
          if spaces (db w1) (docID s name) = None \<and>
             (providerId \<noteq> [] \<longrightarrow> networkEntityGlobalKey s ''space'' providerId \<notin> providerIDs (db w1)) \<and>
             (\<forall>subnetId \<in> set subnetIds. subnets (db w1) (docID s subnetId) \<noteq> None)
          then (None, w1\<lparr>db := foldl apply_op (db w1) (AddSpace_ops s name providerId subnetIds isPublic)\<rparr>)
          else (Some ErrAborted, w1))"
  unfolding runTransaction_def AddSpace_ops_resolved Let_def AddSpace_asserts ..


subsection \<open>A quiet store\<close>

lemma FindId_spaces_quiet:
  "script w = [] \<Longrightarrow>
   FindId_spaces s i w = (case spaces (db w) (docID s i) of None \<Rightarrow> ErrNotFound | Some d \<Rightarrow> Found d, w)"
  by (simp add: FindId_spaces_def env_step_quiet split: option.splits)

lemma FindId_subnets_quiet:
  "script w = [] \<Longrightarrow>
   FindId_subnets s i w = (case subnets (db w) (docID s i) of None \<Rightarrow> ErrNotFound | Some d \<Rightarrow> Found d, w)"
  by (simp add: FindId_subnets_def env_step_quiet split: option.splits)

lemma Space_quiet:
  "script w = [] \<Longrightarrow>
   Space s name w = (case spaces (db w) (docID s name) of
                       None \<Rightarrow> Inl (NotFoundSpace name)
                     | Some d \<Rightarrow> Inr \<lparr>st = s, doc = d\<rparr>, w)"
  by (simp add: Space_def FindId_spaces_quiet split: option.splits)

lemma Subnet_quiet:
  "script w = [] \<Longrightarrow>
   Subnet s cidr w = (case subnets (db w) (docID s cidr) of
                        None \<Rightarrow> Inl (NotFoundSubnet cidr)
                      | Some d \<Rightarrow> Inr d, w)"
  by (simp add: Subnet_def FindId_subnets_quiet split: option.splits)

lemma Refresh_quiet:
  "script w = [] \<Longrightarrow>
   Refresh sp w = (case spaces (db w) (docID (st sp) (DocID (doc sp))) of
                     None \<Rightarrow> (Some (NotFoundSpace (Name (doc sp))), sp, w)
                   | Some d \<Rightarrow> (None, sp\<lparr>doc := d\<rparr>, w))"
  by (simp add: Refresh_def FindId_spaces_quiet split: option.splits)

lemma AddSpace_subnets_quiet:
  "script w = [] \<Longrightarrow>
   AddSpace_subnets s subnetIds w =
     (case filter (\<lambda>subnetId. subnets (db w) (docID s subnetId) = None) subnetIds of
        [] \<Rightarrow> None
      | subnetId # _ \<Rightarrow> Some (NotFoundSubnet subnetId), w)"
  by (induction subnetIds) (auto simp: Subnet_quiet IsNotFound_def split: option.splits)

lemma runTransaction_AddSpace_quiet:
  "script w = [] \<Longrightarrow>
   runTransaction s (AddSpace_ops s name providerId subnetIds isPublic) w =
     (if spaces (db w) (docID s name) = None \<and>
         (providerId \<noteq> [] \<longrightarrow> networkEntityGlobalKey s ''space'' providerId \<notin> providerIDs (db w)) \<and>
         (\<forall>subnetId \<in> set subnetIds. subnets (db w) (docID s subnetId) \<noteq> None)
      then (None, w\<lparr>db := foldl apply_op (db w) (AddSpace_ops s name providerId subnetIds isPublic)\<rparr>)
      else (Some ErrAborted, w))"
  by (simp add: runTransaction_AddSpace env_step_quiet)

lemma AddSpace_aborted_quiet:
  "script w = [] \<Longrightarrow>
   AddSpace_aborted s name providerId subnetIds
     \<lparr>st = s, doc = \<lparr>DocID = docID s name, ModelUUID = stModelUUID s, Life = Alive,
                     Name = name, IsPublic = isPublic, ProviderId = providerId\<rparr>\<rparr> w =
     (if spaces (db w) (docID s name) \<noteq> None then AlreadyExists name
      else case filter (\<lambda>subnetId. subnets (db w) (docID s subnetId) = None) subnetIds of
             [] \<Rightarrow> ProviderIdNotUnique providerId
           | subnetId # _ \<Rightarrow> NotFoundSubnet subnetId, w)"
  by (auto simp: AddSpace_aborted_def Space_quiet AddSpace_subnets_quiet Refresh_quiet
      docID_idem IsNotFound_def split: option.splits list.splits)

lemma AddSpace_quiet:
  assumes "script w = []" "IsValidSpace name"
  shows "AddSpace IsValidSpace s name providerId subnetIds isPublic w =
     (if spaces (db w) (docID s name) \<noteq> None then (Inl (AlreadyExists name), w)
      else case filter (\<lambda>subnetId. subnets (db w) (docID s subnetId) = None) subnetIds of
             subnetId # _ \<Rightarrow> (Inl (NotFoundSubnet subnetId), w)
           | [] \<Rightarrow>
               if providerId \<noteq> [] \<and> networkEntityGlobalKey s ''space'' providerId \<in> providerIDs (db w)
               then (Inl (ProviderIdNotUnique providerId), w)
               else (Inr \<lparr>st = s, doc = \<lparr>DocID = docID s name, ModelUUID = stModelUUID s,
                                         Life = Alive, Name = name, IsPublic = isPublic,
                                         ProviderId = providerId\<rparr>\<rparr>,
                     w\<lparr>db := foldl apply_op (db w)
                                (AddSpace_ops s name providerId subnetIds isPublic)\<rparr>))"
proof -
  let ?missing = "filter (\<lambda>subnetId. subnets (db w) (docID s subnetId) = None) subnetIds"
  have f: "(\<forall>subnetId \<in> set subnetIds. subnets (db w) (docID s subnetId) \<noteq> None)
           \<longleftrightarrow> ?missing = []"
    by (auto simp: filter_empty_conv)
  have unfold: "AddSpace IsValidSpace s name providerId subnetIds isPublic w =
     (case runTransaction s (AddSpace_ops s name providerId subnetIds isPublic) w of
        (Some err, w1) \<Rightarrow>
          if err = ErrAborted
          then (case AddSpace_aborted s name providerId subnetIds
                       \<lparr>st = s, doc = \<lparr>DocID = docID s name, ModelUUID = stModelUUID s,
                                       Life = Alive, Name = name, IsPublic = isPublic,
                                       ProviderId = providerId\<rparr>\<rparr> w1 of
                  (e, w2) \<Rightarrow> (Inl e, w2))
          else (Inl err, w1)
      | (None, w1) \<Rightarrow>
          (Inr \<lparr>st = s, doc = \<lparr>DocID = docID s name, ModelUUID = stModelUUID s,
                                Life = Alive, Name = name, IsPublic = isPublic,
                                ProviderId = providerId\<rparr>\<rparr>, w1))"
    using assms(2) by (simp add: AddSpace_def Let_def)
  show ?thesis
  proof (cases "spaces (db w) (docID s name) \<noteq> None")
    case True
    then show ?thesis
      using assms(1)
      by (simp add: unfold runTransaction_AddSpace_quiet AddSpace_aborted_quiet)
  next
    case fresh: False
    show ?thesis
    proof (cases ?missing)
      case (Cons a rest)
      then have "\<not> (\<forall>subnetId \<in> set subnetIds. subnets (db w) (docID s subnetId) \<noteq> None)"
        using f by simp
      then show ?thesis
        using assms(1) fresh Cons
        by (simp add: unfold runTransaction_AddSpace_quiet AddSpace_aborted_quiet)
    next
      case Nil
      then have all: "\<forall>subnetId \<in> set subnetIds. subnets (db w) (docID s subnetId) \<noteq> None"
        using f by simp
      show ?thesis
      proof (cases "providerId \<noteq> [] \<and> networkEntityGlobalKey s ''space'' providerId \<in> providerIDs (db w)")
        case True
        then show ?thesis
          using assms(1) fresh Nil
          by (simp add: unfold runTransaction_AddSpace_quiet AddSpace_aborted_quiet)
      next
        case False
        then have cond: "spaces (db w) (docID s name) = None \<and>
            (providerId \<noteq> [] \<longrightarrow> networkEntityGlobalKey s ''space'' providerId \<notin> providerIDs (db w)) \<and>
            (\<forall>subnetId \<in> set subnetIds. subnets (db w) (docID s subnetId) \<noteq> None)"
          using fresh all by blast
        have "runTransaction s (AddSpace_ops s name providerId subnetIds isPublic) w
                   = (None, w\<lparr>db := foldl apply_op (db w)
                                (AddSpace_ops s name providerId subnetIds isPublic)\<rparr>)"
          by (simp only: runTransaction_AddSpace_quiet [OF assms(1)] if_P [OF cond])
        then show ?thesis
          using fresh Nil False by (simp add: unfold)
      qed
    qed
  qed
qed


lemma runTransaction_calm:
  assumes "no_interference w" "runTransaction s ops w = (r, w1)"
  shows "no_interference w1" "r \<noteq> None \<Longrightarrow> db w1 = db w"
  using assms env_step_calm [of w]
  by (auto simp: runTransaction_def Let_def no_interference_def
      split: prod.splits bool.splits if_splits)

lemma AddSpace_failure_calm:
  assumes "no_interference w"
    and "fst (AddSpace IsValidSpace s name providerId subnetIds isPublic w) = Inl e"
  shows "db (snd (AddSpace IsValidSpace s name providerId subnetIds isPublic w)) = db w"
proof (cases "IsValidSpace name")
  case False
  then show ?thesis by (simp add: AddSpace_def)
next
  case True
  obtain r w1 where t: "runTransaction s (AddSpace_ops s name providerId subnetIds isPublic) w = (r, w1)"
    by (cases "runTransaction s (AddSpace_ops s name providerId subnetIds isPublic) w")
  note c = runTransaction_calm [OF assms(1) t]
  show ?thesis
  proof (cases r)
    case None
    then show ?thesis using assms(2) True t by (simp add: AddSpace_def Let_def)
  next
    case (Some err)
    then have d: "db w1 = db w" using c(2) by simp
    show ?thesis
    proof (cases "err = ErrAborted")
      case False
      then show ?thesis using True t Some d by (simp add: AddSpace_def Let_def)
    next
      case ab: True
      obtain e2 w2 where a: "AddSpace_aborted s name providerId subnetIds
           \<lparr>st = s, doc = \<lparr>DocID = docID s name, ModelUUID = stModelUUID s, Life = Alive,
                           Name = name, IsPublic = isPublic, ProviderId = providerId\<rparr>\<rparr> w1 = (e2, w2)"
        by (cases "AddSpace_aborted s name providerId subnetIds
           \<lparr>st = s, doc = \<lparr>DocID = docID s name, ModelUUID = stModelUUID s, Life = Alive,
                           Name = name, IsPublic = isPublic, ProviderId = providerId\<rparr>\<rparr> w1")
      have "db w2 = db w1" using AddSpace_aborted_calm(1) [OF c(1) a] .
      then show ?thesis using True t Some ab a d by (simp add: AddSpace_def Let_def)
    qed
  qed
qed

subsection \<open>Creating a space\<close>

text \<open>
  C10. For a name that is not a valid space name, \<^verbatim>\<open>AddSpace\<close> returns the NotValid
  error at once: no operation is built and the store is neither read nor written (the
  world, its script included, is the one it was called in).
\<close>

theorem AddSpace_invalid_name:
  "\<not> IsValidSpace name \<Longrightarrow>
   AddSpace IsValidSpace s name providerId subnetIds isPublic w = (Inl NotValid, w)"
  by (simp add: AddSpace_def)

theorem AddSpace_invalid_name_witness:
  "AddSpace (\<lambda>n. n \<noteq> []) \<lparr>stModelUUID = ''m''\<rparr> [] ''p1'' [''10.0.0.0/24''] True
     \<lparr>db = \<lparr>spaces = Map.empty, subnets = Map.empty, providerIDs = {}\<rparr>, script = [Fault]\<rparr>
   = (Inl NotValid,
      \<lparr>db = \<lparr>spaces = Map.empty, subnets = Map.empty, providerIDs = {}\<rparr>, script = [Fault]\<rparr>)"
  using AddSpace_invalid_name [of "\<lambda>n. n \<noteq> []" "[]"] by simp

text \<open>
  C1 as stated fails: that the space exists is not enough, the fetch by name must also
  succeed. Here the space is stored, the listed subnet is missing, the transaction aborts
  and the fetch of the space hits a store fault: \<^verbatim>\<open>AddSpace\<close> tests that fetch only
  for success (line 120), goes on to the subnets and returns the not-found error of the
  subnet.
\<close>

theorem AddSpace_already_exists_counterexample:
  "spaces \<lparr>spaces = [''m:dmz'' \<mapsto> \<lparr>DocID = ''m:dmz'', ModelUUID = ''m'', Life = Alive,
                                     Name = ''dmz'', IsPublic = False, ProviderId = []\<rparr>],
            subnets = Map.empty, providerIDs = {}\<rparr> (docID \<lparr>stModelUUID = ''m''\<rparr> ''dmz'') \<noteq> None
   \<and> subnets \<lparr>spaces = [''m:dmz'' \<mapsto> \<lparr>DocID = ''m:dmz'', ModelUUID = ''m'', Life = Alive,
                                     Name = ''dmz'', IsPublic = False, ProviderId = []\<rparr>],
            subnets = Map.empty, providerIDs = {}\<rparr> (docID \<lparr>stModelUUID = ''m''\<rparr> ''10.0.0.0/24'') = None
   \<and> fst (runTransaction \<lparr>stModelUUID = ''m''\<rparr>
          (AddSpace_ops \<lparr>stModelUUID = ''m''\<rparr> ''dmz'' [] [''10.0.0.0/24''] False)
          \<lparr>db = \<lparr>spaces = [''m:dmz'' \<mapsto> \<lparr>DocID = ''m:dmz'', ModelUUID = ''m'', Life = Alive,
                                            Name = ''dmz'', IsPublic = False, ProviderId = []\<rparr>],
                  subnets = Map.empty, providerIDs = {}\<rparr>, script = [Quiet, Fault]\<rparr>)
     = Some ErrAborted
   \<and> AddSpace (\<lambda>n. n \<noteq> []) \<lparr>stModelUUID = ''m''\<rparr> ''dmz'' [] [''10.0.0.0/24''] False
       \<lparr>db = \<lparr>spaces = [''m:dmz'' \<mapsto> \<lparr>DocID = ''m:dmz'', ModelUUID = ''m'', Life = Alive,
                                         Name = ''dmz'', IsPublic = False, ProviderId = []\<rparr>],
               subnets = Map.empty, providerIDs = {}\<rparr>, script = [Quiet, Fault]\<rparr>
     = (Inl (NotFoundSubnet ''10.0.0.0/24''),
        \<lparr>db = \<lparr>spaces = [''m:dmz'' \<mapsto> \<lparr>DocID = ''m:dmz'', ModelUUID = ''m'', Life = Alive,
                                          Name = ''dmz'', IsPublic = False, ProviderId = []\<rparr>],
                subnets = Map.empty, providerIDs = {}\<rparr>, script = []\<rparr>)"
  by (simp add: AddSpace_def Let_def AddSpace_ops_def runTransaction_def env_step_def
      assert_holds_def doc_exists_def docID_def AddSpace_aborted_def Space_def
      FindId_spaces_def Subnet_def FindId_subnets_def IsNotFound_def)

text \<open>
  C1, amended. When the transaction of \<^verbatim>\<open>AddSpace\<close> aborts and the fetch of the space
  by name then succeeds, the error is AlreadyExists, whatever the state of the listed
  subnets, and the store is not accessed again. The subnets are looked at only when that
  fetch has failed: then the first subnet reported missing gives the error. On a quiet
  store a create of an existing name reports AlreadyExists also when listed subnets are
  missing, and a create of an absent name with a listed subnet missing reports the first
  missing subnet as not found.
\<close>

theorem AddSpace_already_exists:
  "(IsValidSpace name \<and>
    runTransaction s (AddSpace_ops s name providerId subnetIds isPublic) w = (Some ErrAborted, w1) \<and>
    Space s name w1 = (Inr sp, w2)
    \<longrightarrow> AddSpace IsValidSpace s name providerId subnetIds isPublic w
        = (Inl (AlreadyExists name), w2))
   \<and> (IsValidSpace name \<and>
      runTransaction s (AddSpace_ops s name providerId subnetIds isPublic) u = (Some ErrAborted, u1) \<and>
      Space s name u1 = (Inl e1, u2) \<and>
      AddSpace_subnets s subnetIds u2 = (Some e2, u3)
    \<longrightarrow> AddSpace IsValidSpace s name providerId subnetIds isPublic u = (Inl e2, u3) \<and>
        (\<exists>subnetId \<in> set subnetIds. e2 = NotFoundSubnet subnetId))
   \<and> (IsValidSpace name \<and> script v = [] \<and> spaces (db v) (docID s name) \<noteq> None
    \<longrightarrow> AddSpace IsValidSpace s name providerId subnetIds isPublic v
        = (Inl (AlreadyExists name), v))
   \<and> (IsValidSpace name \<and> script x = [] \<and> spaces (db x) (docID s name) = None \<and>
      filter (\<lambda>subnetId. subnets (db x) (docID s subnetId) = None) subnetIds \<noteq> []
    \<longrightarrow> AddSpace IsValidSpace s name providerId subnetIds isPublic x
        = (Inl (NotFoundSubnet
                  (hd (filter (\<lambda>subnetId. subnets (db x) (docID s subnetId) = None) subnetIds))),
           x))"
proof (intro conjI impI)
  assume "IsValidSpace name \<and>
    runTransaction s (AddSpace_ops s name providerId subnetIds isPublic) w = (Some ErrAborted, w1) \<and>
    Space s name w1 = (Inr sp, w2)"
  then show "AddSpace IsValidSpace s name providerId subnetIds isPublic w
        = (Inl (AlreadyExists name), w2)"
    by (simp add: AddSpace_def Let_def AddSpace_aborted_def)
next
  assume "IsValidSpace name \<and>
      runTransaction s (AddSpace_ops s name providerId subnetIds isPublic) u = (Some ErrAborted, u1) \<and>
      Space s name u1 = (Inl e1, u2) \<and>
      AddSpace_subnets s subnetIds u2 = (Some e2, u3)"
  then show "AddSpace IsValidSpace s name providerId subnetIds isPublic u = (Inl e2, u3)"
    by (simp add: AddSpace_def Let_def AddSpace_aborted_def)
next
  assume a: "IsValidSpace name \<and>
      runTransaction s (AddSpace_ops s name providerId subnetIds isPublic) u = (Some ErrAborted, u1) \<and>
      Space s name u1 = (Inl e1, u2) \<and>
      AddSpace_subnets s subnetIds u2 = (Some e2, u3)"
  have "AddSpace_subnets s ids z = (Some e, z') \<Longrightarrow> \<exists>subnetId \<in> set ids. e = NotFoundSubnet subnetId"
    for ids z e z'
  proof (induction ids arbitrary: z)
    case Nil
    then show ?case by simp
  next
    case (Cons i rest)
    obtain r0 z0 where s0: "Subnet s i z = (r0, z0)" by (cases "Subnet s i z")
    show ?case
    proof (cases "\<exists>err. r0 = Inl err \<and> IsNotFound err")
      case True
      then have "e = NotFoundSubnet i"
        using Cons.prems s0
        by (auto simp: Subnet_def IsNotFound_def split: prod.splits found.splits)
      then show ?thesis by simp
    next
      case False
      then have "AddSpace_subnets s rest z0 = (Some e, z')"
        using Cons.prems s0 by (auto split: sum.splits if_splits)
      then show ?thesis using Cons.IH by auto
    qed
  qed
  then show "\<exists>subnetId \<in> set subnetIds. e2 = NotFoundSubnet subnetId"
    using a by blast
next
  assume "IsValidSpace name \<and> script v = [] \<and> spaces (db v) (docID s name) \<noteq> None"
  then show "AddSpace IsValidSpace s name providerId subnetIds isPublic v
        = (Inl (AlreadyExists name), v)"
    by (simp add: AddSpace_quiet)
next
  assume a: "IsValidSpace name \<and> script x = [] \<and> spaces (db x) (docID s name) = None \<and>
      filter (\<lambda>subnetId. subnets (db x) (docID s subnetId) = None) subnetIds \<noteq> []"
  then obtain i rest where
    f: "filter (\<lambda>subnetId. subnets (db x) (docID s subnetId) = None) subnetIds = i # rest"
    by (cases "filter (\<lambda>subnetId. subnets (db x) (docID s subnetId) = None) subnetIds") auto
  show "AddSpace IsValidSpace s name providerId subnetIds isPublic x
        = (Inl (NotFoundSubnet
                  (hd (filter (\<lambda>subnetId. subnets (db x) (docID s subnetId) = None) subnetIds))),
           x)"
    using a by (simp add: AddSpace_quiet f)
qed

theorem AddSpace_already_exists_witness:
  "AddSpace (\<lambda>n. n \<noteq> []) \<lparr>stModelUUID = ''m''\<rparr> ''dmz'' [] [''10.0.0.0/24''] False
       \<lparr>db = \<lparr>spaces = Map.empty, subnets = Map.empty, providerIDs = {}\<rparr>,
        script = [Interfere
          \<lparr>spaces = [''m:dmz'' \<mapsto> \<lparr>DocID = ''m:dmz'', ModelUUID = ''m'', Life = Dead,
                                    Name = ''dmz'', IsPublic = True, ProviderId = []\<rparr>],
           subnets = Map.empty, providerIDs = {}\<rparr>]\<rparr>
     = (Inl (AlreadyExists ''dmz''),
        \<lparr>db = \<lparr>spaces = [''m:dmz'' \<mapsto> \<lparr>DocID = ''m:dmz'', ModelUUID = ''m'', Life = Dead,
                                          Name = ''dmz'', IsPublic = True, ProviderId = []\<rparr>],
                 subnets = Map.empty, providerIDs = {}\<rparr>, script = []\<rparr>)
   \<and> AddSpace (\<lambda>n. n \<noteq> []) \<lparr>stModelUUID = ''m''\<rparr> ''dmz'' [] [''10.0.0.0/24''] False
        \<lparr>db = \<lparr>spaces = [''m:dmz'' \<mapsto> \<lparr>DocID = ''m:dmz'', ModelUUID = ''m'', Life = Dead,
                                          Name = ''dmz'', IsPublic = True, ProviderId = []\<rparr>],
                 subnets = Map.empty, providerIDs = {}\<rparr>, script = [Quiet, Fault]\<rparr>
     = (Inl (NotFoundSubnet ''10.0.0.0/24''),
        \<lparr>db = \<lparr>spaces = [''m:dmz'' \<mapsto> \<lparr>DocID = ''m:dmz'', ModelUUID = ''m'', Life = Dead,
                                          Name = ''dmz'', IsPublic = True, ProviderId = []\<rparr>],
                 subnets = Map.empty, providerIDs = {}\<rparr>, script = []\<rparr>)
   \<and> AddSpace (\<lambda>n. n \<noteq> []) \<lparr>stModelUUID = ''m''\<rparr> ''dmz'' [] [''10.0.0.0/24''] False
        \<lparr>db = \<lparr>spaces = [''m:dmz'' \<mapsto> \<lparr>DocID = ''m:dmz'', ModelUUID = ''m'', Life = Dead,
                                          Name = ''dmz'', IsPublic = True, ProviderId = []\<rparr>],
                 subnets = Map.empty, providerIDs = {}\<rparr>, script = []\<rparr>
     = (Inl (AlreadyExists ''dmz''),
        \<lparr>db = \<lparr>spaces = [''m:dmz'' \<mapsto> \<lparr>DocID = ''m:dmz'', ModelUUID = ''m'', Life = Dead,
                                          Name = ''dmz'', IsPublic = True, ProviderId = []\<rparr>],
                 subnets = Map.empty, providerIDs = {}\<rparr>, script = []\<rparr>)
   \<and> AddSpace (\<lambda>n. n \<noteq> []) \<lparr>stModelUUID = ''m''\<rparr> ''dmz'' [] [''10.0.0.0/24''] False
        \<lparr>db = \<lparr>spaces = Map.empty, subnets = Map.empty, providerIDs = {}\<rparr>, script = []\<rparr>
     = (Inl (NotFoundSubnet ''10.0.0.0/24''),
        \<lparr>db = \<lparr>spaces = Map.empty, subnets = Map.empty, providerIDs = {}\<rparr>, script = []\<rparr>)"
proof -
  let ?st = "\<lparr>stModelUUID = ''m''\<rparr>"
  let ?d = "\<lparr>spaces = [''m:dmz'' \<mapsto> \<lparr>DocID = ''m:dmz'', ModelUUID = ''m'', Life = Dead,
                                    Name = ''dmz'', IsPublic = True, ProviderId = []\<rparr>],
            subnets = Map.empty, providerIDs = {}\<rparr>"
  let ?e = "\<lparr>spaces = Map.empty, subnets = Map.empty, providerIDs = {}\<rparr>"
  show ?thesis
    using AddSpace_already_exists
      [where IsValidSpace = "\<lambda>n. n \<noteq> []" and name = "''dmz''" and s = ?st
         and providerId = "[]" and subnetIds = "[''10.0.0.0/24'']" and isPublic = False
         and w = "\<lparr>db = ?e, script = [Interfere ?d]\<rparr>"
         and ?w1.0 = "\<lparr>db = ?d, script = []\<rparr>"
         and sp = "\<lparr>st = ?st, doc = \<lparr>DocID = ''m:dmz'', ModelUUID = ''m'', Life = Dead,
                                      Name = ''dmz'', IsPublic = True, ProviderId = []\<rparr>\<rparr>"
         and ?w2.0 = "\<lparr>db = ?d, script = []\<rparr>"
         and u = "\<lparr>db = ?d, script = [Quiet, Fault]\<rparr>"
         and ?u1.0 = "\<lparr>db = ?d, script = [Fault]\<rparr>"
         and ?e1.0 = CannotGetSpace
         and ?u2.0 = "\<lparr>db = ?d, script = []\<rparr>"
         and ?e2.0 = "NotFoundSubnet ''10.0.0.0/24''"
         and ?u3.0 = "\<lparr>db = ?d, script = []\<rparr>"
         and v = "\<lparr>db = ?d, script = []\<rparr>"
         and x = "\<lparr>db = ?e, script = []\<rparr>"]
    by (simp add: runTransaction_def AddSpace_ops_def Let_def env_step_def assert_holds_def
        doc_exists_def docID_def Space_def FindId_spaces_def Subnet_def FindId_subnets_def
        IsNotFound_def)
qed

text \<open>
  C3 as stated fails: a fresh id and a valid name are not enough. With a listed subnet
  that does not exist the transaction aborts on that subnet's assertion and
  \<^verbatim>\<open>AddSpace\<close> returns the not-found error of the subnet.
\<close>

theorem AddSpace_fresh_counterexample:
  "spaces \<lparr>spaces = Map.empty, subnets = Map.empty, providerIDs = {}\<rparr>
     (docID \<lparr>stModelUUID = ''m''\<rparr> ''dmz'') = None
   \<and> AddSpace (\<lambda>n. n \<noteq> []) \<lparr>stModelUUID = ''m''\<rparr> ''dmz'' [] [''10.0.0.0/24''] False
       \<lparr>db = \<lparr>spaces = Map.empty, subnets = Map.empty, providerIDs = {}\<rparr>, script = []\<rparr>
     = (Inl (NotFoundSubnet ''10.0.0.0/24''),
        \<lparr>db = \<lparr>spaces = Map.empty, subnets = Map.empty, providerIDs = {}\<rparr>, script = []\<rparr>)"
  by (simp add: AddSpace_quiet docID_def)

text \<open>
  C3, amended. On a quiet store, for every fresh id with a valid name whose listed subnets
  all exist and whose provider id, if it has one, is not in use, \<^verbatim>\<open>AddSpace\<close> succeeds
  and an immediate \<^verbatim>\<open>Refresh\<close> of the returned space succeeds with life Alive. Its
  single transaction starts with the insert of the space document under the assertion
  that the id is missing and holds, for every listed subnet, an operation asserting that
  the subnet exists and setting its space name; after it the space document is stored and
  every listed subnet carries the space name. When \<^verbatim>\<open>AddSpace\<close> fails instead, and no
  other actor interferes, the database is unchanged: insert and stamps are applied
  together or not at all.
\<close>

theorem AddSpace_fresh:
  "(IsValidSpace name \<and> script w = [] \<and>
    spaces (db w) (docID s name) = None \<and>
    (\<forall>subnetId \<in> set subnetIds. subnets (db w) (docID s subnetId) \<noteq> None) \<and>
    (providerId = [] \<or> networkEntityGlobalKey s ''space'' providerId \<notin> providerIDs (db w))
    \<longrightarrow>
      fst (AddSpace IsValidSpace s name providerId subnetIds isPublic w)
        = Inr \<lparr>st = s, doc = \<lparr>DocID = docID s name, ModelUUID = stModelUUID s, Life = Alive,
                               Name = name, IsPublic = isPublic, ProviderId = providerId\<rparr>\<rparr> \<and>
      Refresh \<lparr>st = s, doc = \<lparr>DocID = docID s name, ModelUUID = stModelUUID s, Life = Alive,
                               Name = name, IsPublic = isPublic, ProviderId = providerId\<rparr>\<rparr>
          (snd (AddSpace IsValidSpace s name providerId subnetIds isPublic w))
        = (None,
           \<lparr>st = s, doc = \<lparr>DocID = docID s name, ModelUUID = stModelUUID s, Life = Alive,
                           Name = name, IsPublic = isPublic, ProviderId = providerId\<rparr>\<rparr>,
           snd (AddSpace IsValidSpace s name providerId subnetIds isPublic w)) \<and>
      runTransaction s (AddSpace_ops s name providerId subnetIds isPublic) w
        = (None, snd (AddSpace IsValidSpace s name providerId subnetIds isPublic w)) \<and>
      hd (AddSpace_ops s name providerId subnetIds isPublic)
        = \<lparr>C = spacesC, Id = docID s name, Assert = DocMissing,
           Insert = Some (InsertSpaceDoc
             \<lparr>DocID = docID s name, ModelUUID = stModelUUID s, Life = Alive,
              Name = name, IsPublic = isPublic, ProviderId = providerId\<rparr>),
           Update = None, Remove_flag = False\<rparr> \<and>
      spaces (db (snd (AddSpace IsValidSpace s name providerId subnetIds isPublic w))) (docID s name)
        = Some \<lparr>DocID = docID s name, ModelUUID = stModelUUID s, Life = Alive,
                Name = name, IsPublic = isPublic, ProviderId = providerId\<rparr> \<and>
      (\<forall>subnetId \<in> set subnetIds.
         \<lparr>C = subnetsC, Id = docID s subnetId, Assert = DocExists, Insert = None,
          Update = Some (SetSpaceName name), Remove_flag = False\<rparr>
           \<in> set (AddSpace_ops s name providerId subnetIds isPublic) \<and>
         map_option SpaceName
           (subnets (db (snd (AddSpace IsValidSpace s name providerId subnetIds isPublic w)))
              (docID s subnetId)) = Some name))
   \<and> (no_interference v \<and>
      fst (AddSpace IsValidSpace s name providerId subnetIds isPublic v) = Inl e
    \<longrightarrow> db (snd (AddSpace IsValidSpace s name providerId subnetIds isPublic v)) = db v)"
proof (intro conjI impI)
  assume "no_interference v \<and>
      fst (AddSpace IsValidSpace s name providerId subnetIds isPublic v) = Inl e"
  then show "db (snd (AddSpace IsValidSpace s name providerId subnetIds isPublic v)) = db v"
    using AddSpace_failure_calm by blast
next
  let ?doc = "\<lparr>DocID = docID s name, ModelUUID = stModelUUID s, Life = Alive,
              Name = name, IsPublic = isPublic, ProviderId = providerId\<rparr>"
  let ?ops = "AddSpace_ops s name providerId subnetIds isPublic"
  let ?w' = "w\<lparr>db := foldl apply_op (db w) ?ops\<rparr>"
  assume a: "IsValidSpace name \<and> script w = [] \<and>
    spaces (db w) (docID s name) = None \<and>
    (\<forall>subnetId \<in> set subnetIds. subnets (db w) (docID s subnetId) \<noteq> None) \<and>
    (providerId = [] \<or> networkEntityGlobalKey s ''space'' providerId \<notin> providerIDs (db w))"
  then have q: "script w = []" and v: "IsValidSpace name"
    and fresh: "spaces (db w) (docID s name) = None"
    and subs: "\<forall>subnetId \<in> set subnetIds. subnets (db w) (docID s subnetId) \<noteq> None"
    and pid: "providerId \<noteq> [] \<longrightarrow> networkEntityGlobalKey s ''space'' providerId \<notin> providerIDs (db w)"
    by auto
  have nomiss: "filter (\<lambda>subnetId. subnets (db w) (docID s subnetId) = None) subnetIds = []"
    using subs by (auto simp: filter_empty_conv)
  have res: "AddSpace IsValidSpace s name providerId subnetIds isPublic w = (Inr \<lparr>st = s, doc = ?doc\<rparr>, ?w')"
    using q v fresh nomiss pid by (auto simp: AddSpace_quiet)
  have cond: "spaces (db w) (docID s name) = None \<and>
      (providerId \<noteq> [] \<longrightarrow> networkEntityGlobalKey s ''space'' providerId \<notin> providerIDs (db w)) \<and>
      (\<forall>subnetId \<in> set subnetIds. subnets (db w) (docID s subnetId) \<noteq> None)"
    using fresh pid subs by blast
  have txn: "runTransaction s ?ops w = (None, ?w')"
    by (simp only: runTransaction_AddSpace_quiet [OF q] if_P [OF cond])
  have sp: "spaces (db ?w') (docID s name) = Some ?doc"
    using AddSpace_apply(1) [OF fresh pid] by simp
  show "fst (AddSpace IsValidSpace s name providerId subnetIds isPublic w) = Inr \<lparr>st = s, doc = ?doc\<rparr>"
    by (simp add: res)
  show "Refresh \<lparr>st = s, doc = ?doc\<rparr> (snd (AddSpace IsValidSpace s name providerId subnetIds isPublic w))
        = (None, \<lparr>st = s, doc = ?doc\<rparr>, snd (AddSpace IsValidSpace s name providerId subnetIds isPublic w))"
    using q sp by (simp add: res Refresh_quiet docID_idem)
  show "runTransaction s ?ops w = (None, snd (AddSpace IsValidSpace s name providerId subnetIds isPublic w))"
    by (simp add: res txn)
  show "hd ?ops = \<lparr>C = spacesC, Id = docID s name, Assert = DocMissing,
           Insert = Some (InsertSpaceDoc ?doc), Update = None, Remove_flag = False\<rparr>"
    by (simp add: AddSpace_ops_def Let_def)
  show "spaces (db (snd (AddSpace IsValidSpace s name providerId subnetIds isPublic w))) (docID s name)
        = Some ?doc"
    using sp by (simp add: res)
  show "\<forall>subnetId \<in> set subnetIds.
         \<lparr>C = subnetsC, Id = docID s subnetId, Assert = DocExists, Insert = None,
          Update = Some (SetSpaceName name), Remove_flag = False\<rparr> \<in> set ?ops \<and>
         map_option SpaceName
           (subnets (db (snd (AddSpace IsValidSpace s name providerId subnetIds isPublic w)))
              (docID s subnetId)) = Some name"
  proof
    fix subnetId assume m: "subnetId \<in> set subnetIds"
    then obtain x where x: "subnets (db w) (docID s subnetId) = Some x" using subs by auto
    have "subnets (db ?w') (docID s subnetId) = Some (x\<lparr>SpaceName := name\<rparr>)"
      using AddSpace_apply(3) [OF fresh pid, of subnetIds isPublic "docID s subnetId"] m x by simp
    moreover have "\<lparr>C = subnetsC, Id = docID s subnetId, Assert = DocExists, Insert = None,
          Update = Some (SetSpaceName name), Remove_flag = False\<rparr> \<in> set ?ops"
      using m by (simp add: AddSpace_ops_def Let_def)
    ultimately show "\<lparr>C = subnetsC, Id = docID s subnetId, Assert = DocExists, Insert = None,
          Update = Some (SetSpaceName name), Remove_flag = False\<rparr> \<in> set ?ops \<and>
         map_option SpaceName
           (subnets (db (snd (AddSpace IsValidSpace s name providerId subnetIds isPublic w)))
              (docID s subnetId)) = Some name"
      by (simp add: res)
  qed
qed

theorem AddSpace_fresh_witness:
  "fst (AddSpace (\<lambda>n. n \<noteq> []) \<lparr>stModelUUID = ''m''\<rparr> ''dmz'' ''p1'' [''10.0.0.0/24''] False
       \<lparr>db = \<lparr>spaces = Map.empty,
               subnets = [''m:10.0.0.0/24'' \<mapsto> \<lparr>SubnetDocID = ''m:10.0.0.0/24'', SpaceName = []\<rparr>],
               providerIDs = {}\<rparr>, script = []\<rparr>)
     = Inr \<lparr>st = \<lparr>stModelUUID = ''m''\<rparr>,
            doc = \<lparr>DocID = ''m:dmz'', ModelUUID = ''m'', Life = Alive, Name = ''dmz'',
                   IsPublic = False, ProviderId = ''p1''\<rparr>\<rparr>
   \<and> map_option SpaceName
       (subnets (db (snd (AddSpace (\<lambda>n. n \<noteq> []) \<lparr>stModelUUID = ''m''\<rparr> ''dmz'' ''p1''
          [''10.0.0.0/24''] False
          \<lparr>db = \<lparr>spaces = Map.empty,
                  subnets = [''m:10.0.0.0/24'' \<mapsto> \<lparr>SubnetDocID = ''m:10.0.0.0/24'', SpaceName = []\<rparr>],
                  providerIDs = {}\<rparr>, script = []\<rparr>))) ''m:10.0.0.0/24'') = Some ''dmz''
   \<and> fst (AddSpace (\<lambda>n. n \<noteq> []) \<lparr>stModelUUID = ''m''\<rparr> ''dmz'' ''p1'' [''10.0.0.0/24''] False
       \<lparr>db = \<lparr>spaces = Map.empty, subnets = Map.empty, providerIDs = {}\<rparr>, script = [Quiet, Fault]\<rparr>)
     = Inl (NotFoundSubnet ''10.0.0.0/24'')
   \<and> db (snd (AddSpace (\<lambda>n. n \<noteq> []) \<lparr>stModelUUID = ''m''\<rparr> ''dmz'' ''p1'' [''10.0.0.0/24''] False
       \<lparr>db = \<lparr>spaces = Map.empty, subnets = Map.empty, providerIDs = {}\<rparr>, script = [Quiet, Fault]\<rparr>))
     = \<lparr>spaces = Map.empty, subnets = Map.empty, providerIDs = {}\<rparr>"
proof -
  have f: "AddSpace (\<lambda>n. n \<noteq> []) \<lparr>stModelUUID = ''m''\<rparr> ''dmz'' ''p1'' [''10.0.0.0/24''] False
       \<lparr>db = \<lparr>spaces = Map.empty, subnets = Map.empty, providerIDs = {}\<rparr>, script = [Quiet, Fault]\<rparr>
     = (Inl (NotFoundSubnet ''10.0.0.0/24''),
        \<lparr>db = \<lparr>spaces = Map.empty, subnets = Map.empty, providerIDs = {}\<rparr>, script = []\<rparr>)"
    by (simp add: AddSpace_def Let_def AddSpace_ops_def runTransaction_def env_step_def
        assert_holds_def doc_exists_def docID_def networkEntityGlobalKeyOp_def
        networkEntityGlobalKey_def AddSpace_aborted_def Space_def FindId_spaces_def
        Subnet_def FindId_subnets_def IsNotFound_def)
  show ?thesis
    using AddSpace_fresh
      [of "\<lambda>n. n \<noteq> []" "''dmz''"
          "\<lparr>db = \<lparr>spaces = Map.empty,
                  subnets = [''m:10.0.0.0/24'' \<mapsto> \<lparr>SubnetDocID = ''m:10.0.0.0/24'', SpaceName = []\<rparr>],
                  providerIDs = {}\<rparr>, script = []\<rparr>"
          "\<lparr>stModelUUID = ''m''\<rparr>" "[''10.0.0.0/24'']" "''p1''" False
          "\<lparr>db = \<lparr>spaces = Map.empty, subnets = Map.empty, providerIDs = {}\<rparr>, script = [Quiet, Fault]\<rparr>"
          "NotFoundSubnet ''10.0.0.0/24''"]
    by (simp add: f docID_def networkEntityGlobalKey_def no_interference_def is_Interfere_def)
qed


text \<open>
  C9 as stated fails in its first half: when the space is still missing at the last
  fetch, \<^verbatim>\<open>AddSpace\<close> does not report a life conflict (NotAlive, or not found or not
  dead) but that the provider id is not unique. Here the name is fresh, no subnet is
  listed and the provider id is in use.
\<close>

theorem AddSpace_refetch_counterexample:
  "spaces \<lparr>spaces = Map.empty, subnets = Map.empty, providerIDs = {''m:space:p1''}\<rparr>
     (docID \<lparr>stModelUUID = ''m''\<rparr> ''dmz'') = None
   \<and> AddSpace (\<lambda>n. n \<noteq> []) \<lparr>stModelUUID = ''m''\<rparr> ''dmz'' ''p1'' [] False
       \<lparr>db = \<lparr>spaces = Map.empty, subnets = Map.empty, providerIDs = {''m:space:p1''}\<rparr>,
        script = []\<rparr>
     = (Inl (ProviderIdNotUnique ''p1''),
        \<lparr>db = \<lparr>spaces = Map.empty, subnets = Map.empty, providerIDs = {''m:space:p1''}\<rparr>,
         script = []\<rparr>)
   \<and> ProviderIdNotUnique ''p1'' \<noteq> errNotAlive
   \<and> ProviderIdNotUnique ''p1'' \<noteq> NotFoundOrNotDead
   \<and> ProviderIdNotUnique ''p1'' \<noteq> SpaceNotDead"
  by (simp add: AddSpace_quiet docID_def networkEntityGlobalKey_def errNotAlive_def)

text \<open>
  C9, amended. When the transaction of \<^verbatim>\<open>AddSpace\<close> has aborted, the fetch by name has
  failed and no listed subnet was reported missing, the new space is refreshed: if that
  reports the space missing, the error says that the provider id is not unique; if it
  fails otherwise, that error is returned; if it succeeds, the abort error of the
  transaction is returned. On a quiet store the first case is the one of a fresh name
  whose subnets all exist and whose provider id is in use.
\<close>

theorem AddSpace_refetch:
  "(IsValidSpace name \<and>
    runTransaction s (AddSpace_ops s name providerId subnetIds isPublic) w = (Some ErrAborted, w1) \<and>
    Space s name w1 = (Inl e1, w2) \<and>
    AddSpace_subnets s subnetIds w2 = (None, w3) \<and>
    Refresh \<lparr>st = s, doc = \<lparr>DocID = docID s name, ModelUUID = stModelUUID s, Life = Alive,
                             Name = name, IsPublic = isPublic, ProviderId = providerId\<rparr>\<rparr> w3
      = (r, sp, w4)
    \<longrightarrow> AddSpace IsValidSpace s name providerId subnetIds isPublic w
        = (Inl (case r of
                  Some err \<Rightarrow> if IsNotFound err then ProviderIdNotUnique providerId else err
                | None \<Rightarrow> ErrAborted), w4))
   \<and> (IsValidSpace name \<and> script v = [] \<and>
      spaces (db v) (docID s name) = None \<and>
      (\<forall>subnetId \<in> set subnetIds. subnets (db v) (docID s subnetId) \<noteq> None) \<and>
      providerId \<noteq> [] \<and> networkEntityGlobalKey s ''space'' providerId \<in> providerIDs (db v)
    \<longrightarrow> AddSpace IsValidSpace s name providerId subnetIds isPublic v
        = (Inl (ProviderIdNotUnique providerId), v))"
proof (intro conjI impI)
  assume "IsValidSpace name \<and>
    runTransaction s (AddSpace_ops s name providerId subnetIds isPublic) w = (Some ErrAborted, w1) \<and>
    Space s name w1 = (Inl e1, w2) \<and>
    AddSpace_subnets s subnetIds w2 = (None, w3) \<and>
    Refresh \<lparr>st = s, doc = \<lparr>DocID = docID s name, ModelUUID = stModelUUID s, Life = Alive,
                             Name = name, IsPublic = isPublic, ProviderId = providerId\<rparr>\<rparr> w3
      = (r, sp, w4)"
  then show "AddSpace IsValidSpace s name providerId subnetIds isPublic w
        = (Inl (case r of
                  Some err \<Rightarrow> if IsNotFound err then ProviderIdNotUnique providerId else err
                | None \<Rightarrow> ErrAborted), w4)"
    by (simp add: AddSpace_def Let_def AddSpace_aborted_def split: option.splits)
next
  assume a: "IsValidSpace name \<and> script v = [] \<and>
      spaces (db v) (docID s name) = None \<and>
      (\<forall>subnetId \<in> set subnetIds. subnets (db v) (docID s subnetId) \<noteq> None) \<and>
      providerId \<noteq> [] \<and> networkEntityGlobalKey s ''space'' providerId \<in> providerIDs (db v)"
  then have "filter (\<lambda>subnetId. subnets (db v) (docID s subnetId) = None) subnetIds = []"
    by (auto simp: filter_empty_conv)
  then show "AddSpace IsValidSpace s name providerId subnetIds isPublic v
        = (Inl (ProviderIdNotUnique providerId), v)"
    using a by (simp add: AddSpace_quiet)
qed

theorem AddSpace_refetch_witness:
  "AddSpace (\<lambda>n. n \<noteq> []) \<lparr>stModelUUID = ''m''\<rparr> ''dmz'' ''p1'' [] False
       \<lparr>db = \<lparr>spaces = [''m:dmz'' \<mapsto> \<lparr>DocID = ''m:dmz'', ModelUUID = ''m'', Life = Alive,
                                         Name = ''dmz'', IsPublic = False, ProviderId = ''p1''\<rparr>],
               subnets = Map.empty, providerIDs = {''m:space:p1''}\<rparr>,
        script = [Quiet, Fault]\<rparr>
     = (Inl ErrAborted,
        \<lparr>db = \<lparr>spaces = [''m:dmz'' \<mapsto> \<lparr>DocID = ''m:dmz'', ModelUUID = ''m'', Life = Alive,
                                          Name = ''dmz'', IsPublic = False, ProviderId = ''p1''\<rparr>],
                subnets = Map.empty, providerIDs = {''m:space:p1''}\<rparr>,
         script = []\<rparr>)
   \<and> AddSpace (\<lambda>n. n \<noteq> []) \<lparr>stModelUUID = ''m''\<rparr> ''dmz'' ''p1'' [] False
       \<lparr>db = \<lparr>spaces = Map.empty, subnets = Map.empty, providerIDs = {''m:space:p1''}\<rparr>,
        script = []\<rparr>
     = (Inl (ProviderIdNotUnique ''p1''),
        \<lparr>db = \<lparr>spaces = Map.empty, subnets = Map.empty, providerIDs = {''m:space:p1''}\<rparr>,
         script = []\<rparr>)"
  using AddSpace_refetch
    [of "\<lambda>n. n \<noteq> []" "''dmz''" "\<lparr>stModelUUID = ''m''\<rparr>" "''p1''" "[]" False
        "\<lparr>db = \<lparr>spaces = [''m:dmz'' \<mapsto> \<lparr>DocID = ''m:dmz'', ModelUUID = ''m'', Life = Alive,
                                          Name = ''dmz'', IsPublic = False, ProviderId = ''p1''\<rparr>],
                subnets = Map.empty, providerIDs = {''m:space:p1''}\<rparr>,
          script = [Quiet, Fault]\<rparr>"
        "\<lparr>db = \<lparr>spaces = [''m:dmz'' \<mapsto> \<lparr>DocID = ''m:dmz'', ModelUUID = ''m'', Life = Alive,
                                          Name = ''dmz'', IsPublic = False, ProviderId = ''p1''\<rparr>],
                subnets = Map.empty, providerIDs = {''m:space:p1''}\<rparr>,
          script = [Fault]\<rparr>"
        CannotGetSpace
        "\<lparr>db = \<lparr>spaces = [''m:dmz'' \<mapsto> \<lparr>DocID = ''m:dmz'', ModelUUID = ''m'', Life = Alive,
                                          Name = ''dmz'', IsPublic = False, ProviderId = ''p1''\<rparr>],
                subnets = Map.empty, providerIDs = {''m:space:p1''}\<rparr>,
          script = []\<rparr>"
        "\<lparr>db = \<lparr>spaces = [''m:dmz'' \<mapsto> \<lparr>DocID = ''m:dmz'', ModelUUID = ''m'', Life = Alive,
                                          Name = ''dmz'', IsPublic = False, ProviderId = ''p1''\<rparr>],
                subnets = Map.empty, providerIDs = {''m:space:p1''}\<rparr>,
          script = []\<rparr>"
        None
        "\<lparr>st = \<lparr>stModelUUID = ''m''\<rparr>,
          doc = \<lparr>DocID = ''m:dmz'', ModelUUID = ''m'', Life = Alive,
                 Name = ''dmz'', IsPublic = False, ProviderId = ''p1''\<rparr>\<rparr>"
        "\<lparr>db = \<lparr>spaces = [''m:dmz'' \<mapsto> \<lparr>DocID = ''m:dmz'', ModelUUID = ''m'', Life = Alive,
                                          Name = ''dmz'', IsPublic = False, ProviderId = ''p1''\<rparr>],
                subnets = Map.empty, providerIDs = {''m:space:p1''}\<rparr>,
          script = []\<rparr>"
        "\<lparr>db = \<lparr>spaces = Map.empty, subnets = Map.empty, providerIDs = {''m:space:p1''}\<rparr>,
          script = []\<rparr>"]
  by (simp add: runTransaction_def AddSpace_ops_def Let_def env_step_def assert_holds_def
      doc_exists_def docID_def Space_def FindId_spaces_def Refresh_def
      networkEntityGlobalKeyOp_def networkEntityGlobalKey_def)


subsection \<open>Marking a space dead and removing it\<close>

lemma EnsureDead_step:
  assumes "Life (doc sp) \<noteq> Dead" "env_step w = (f, w1)"
  shows "EnsureDead sp w =
     (if f then (Some StoreError, sp, w1)
      else case spaces (db w1) (docID (st sp) (DocID (doc sp))) of
             None \<Rightarrow> (Some errNotAlive, sp, w1)
           | Some d \<Rightarrow>
               if Life d = Alive
               then (None, sp\<lparr>doc := (doc sp)\<lparr>Life := Dead\<rparr>\<rparr>,
                     w1\<lparr>db := (db w1)\<lparr>spaces := (spaces (db w1))
                                   (docID (st sp) (DocID (doc sp)) \<mapsto> d\<lparr>Life := Dead\<rparr>)\<rparr>\<rparr>)
               else (Some errNotAlive, sp, w1))"
  using assms
  by (simp add: EnsureDead_def Let_def runTransaction_def assert_holds_def isAliveDoc_def
      apply_op_def update_doc_def onAbort_def errNotAlive_def split: option.splits)

lemma Remove_step:
  assumes "Life (doc sp) = Dead" "env_step w = (f, w1)"
  shows "Remove sp w =
     (if f then (Some StoreError, w1)
      else case spaces (db w1) (docID (st sp) (DocID (doc sp))) of
             None \<Rightarrow> (Some NotFoundOrNotDead, w1)
           | Some d \<Rightarrow>
               if Life d = Dead
               then (None,
                     w1\<lparr>db := (db w1)\<lparr>spaces := (spaces (db w1))(docID (st sp) (DocID (doc sp)) := None),
                                     providerIDs :=
                                       (if ProviderId (doc sp) \<noteq> []
                                        then providerIDs (db w1)
                                             - {networkEntityGlobalKey (st sp) ''space'' (ProviderId (doc sp))}
                                        else providerIDs (db w1))\<rparr>\<rparr>)
               else (Some NotFoundOrNotDead, w1))"
  using assms
  by (simp add: Remove_def Let_def runTransaction_def assert_holds_def isDeadDoc_def
      apply_op_def remove_doc_def onAbort_def networkEntityGlobalKeyRemoveOp_def
      networkEntityGlobalKey_def docID_idem split: option.splits)

text \<open>
  C4. \<^verbatim>\<open>EnsureDead\<close> on a space value that is already Dead succeeds without touching
  the store. Otherwise its transaction asserts that the stored life is Alive before it
  writes Dead: with the stored life Alive it succeeds, and the stored document and the
  space value are Dead afterwards; with the stored life no longer Alive, or the document
  gone, it fails with the NotAlive error and changes nothing. After a successful call a
  second call on the same space value succeeds and changes nothing.
\<close>

theorem EnsureDead_spec:
  "(Life (doc s1) = Dead \<longrightarrow> EnsureDead s1 v1 = (None, s1, v1))
   \<and> (Life (doc s2) \<noteq> Dead \<and> env_step v2 = (False, w2) \<and>
      life_at w2 (docID (st s2) (DocID (doc s2))) = Some Alive
    \<longrightarrow> fst (EnsureDead s2 v2) = None \<and>
        Life (doc (fst (snd (EnsureDead s2 v2)))) = Dead \<and>
        life_at (snd (snd (EnsureDead s2 v2))) (docID (st s2) (DocID (doc s2))) = Some Dead \<and>
        (\<forall>i. i \<noteq> docID (st s2) (DocID (doc s2))
           \<longrightarrow> spaces (db (snd (snd (EnsureDead s2 v2)))) i = spaces (db w2) i))
   \<and> (Life (doc s3) \<noteq> Dead \<and> env_step v3 = (False, w3) \<and>
      life_at w3 (docID (st s3) (DocID (doc s3))) \<noteq> Some Alive
    \<longrightarrow> EnsureDead s3 v3 = (Some errNotAlive, s3, w3))
   \<and> (fst (EnsureDead s4 v4) = None
    \<longrightarrow> EnsureDead (fst (snd (EnsureDead s4 v4))) (snd (snd (EnsureDead s4 v4)))
        = (None, fst (snd (EnsureDead s4 v4)), snd (snd (EnsureDead s4 v4))))"
proof (intro conjI impI)
  assume "Life (doc s1) = Dead"
  then show "EnsureDead s1 v1 = (None, s1, v1)" by (simp add: EnsureDead_def)
next
  assume a: "Life (doc s2) \<noteq> Dead \<and> env_step v2 = (False, w2) \<and>
      life_at w2 (docID (st s2) (DocID (doc s2))) = Some Alive"
  then obtain d where d: "spaces (db w2) (docID (st s2) (DocID (doc s2))) = Some d" "Life d = Alive"
    by (auto simp: life_at_def)
  have r: "EnsureDead s2 v2 = (None, s2\<lparr>doc := (doc s2)\<lparr>Life := Dead\<rparr>\<rparr>,
       w2\<lparr>db := (db w2)\<lparr>spaces := (spaces (db w2))
                     (docID (st s2) (DocID (doc s2)) \<mapsto> d\<lparr>Life := Dead\<rparr>)\<rparr>\<rparr>)"
    using a d by (simp add: EnsureDead_step [where f = False and ?w1.0 = w2])
  show "fst (EnsureDead s2 v2) = None" by (simp add: r)
  show "Life (doc (fst (snd (EnsureDead s2 v2)))) = Dead" by (simp add: r)
  show "life_at (snd (snd (EnsureDead s2 v2))) (docID (st s2) (DocID (doc s2))) = Some Dead"
    by (simp add: r life_at_def)
  show "\<forall>i. i \<noteq> docID (st s2) (DocID (doc s2))
           \<longrightarrow> spaces (db (snd (snd (EnsureDead s2 v2)))) i = spaces (db w2) i"
    by (simp add: r)
next
  assume a: "Life (doc s3) \<noteq> Dead \<and> env_step v3 = (False, w3) \<and>
      life_at w3 (docID (st s3) (DocID (doc s3))) \<noteq> Some Alive"
  then show "EnsureDead s3 v3 = (Some errNotAlive, s3, w3)"
    by (simp add: EnsureDead_step [where f = False and ?w1.0 = w3] life_at_def
        split: option.splits)
next
  assume a: "fst (EnsureDead s4 v4) = None"
  have "Life (doc (fst (snd (EnsureDead s4 v4)))) = Dead"
  proof (cases "Life (doc s4) = Dead")
    case True
    then show ?thesis by (simp add: EnsureDead_def)
  next
    case False
    then show ?thesis
      using a
      by (auto simp: EnsureDead_def Let_def split: prod.splits option.splits)
  qed
  then show "EnsureDead (fst (snd (EnsureDead s4 v4))) (snd (snd (EnsureDead s4 v4)))
        = (None, fst (snd (EnsureDead s4 v4)), snd (snd (EnsureDead s4 v4)))"
    by (simp add: EnsureDead_def)
qed

theorem EnsureDead_spec_witness:
  "EnsureDead \<lparr>st = \<lparr>stModelUUID = ''m''\<rparr>,
               doc = \<lparr>DocID = ''m:dmz'', ModelUUID = ''m'', Life = Dead, Name = ''dmz'',
                      IsPublic = False, ProviderId = []\<rparr>\<rparr>
     \<lparr>db = \<lparr>spaces = Map.empty, subnets = Map.empty, providerIDs = {}\<rparr>, script = [Fault]\<rparr>
   = (None,
      \<lparr>st = \<lparr>stModelUUID = ''m''\<rparr>,
        doc = \<lparr>DocID = ''m:dmz'', ModelUUID = ''m'', Life = Dead, Name = ''dmz'',
               IsPublic = False, ProviderId = []\<rparr>\<rparr>,
      \<lparr>db = \<lparr>spaces = Map.empty, subnets = Map.empty, providerIDs = {}\<rparr>, script = [Fault]\<rparr>)
   \<and> fst (EnsureDead \<lparr>st = \<lparr>stModelUUID = ''m''\<rparr>,
               doc = \<lparr>DocID = ''m:dmz'', ModelUUID = ''m'', Life = Alive, Name = ''dmz'',
                      IsPublic = False, ProviderId = []\<rparr>\<rparr>
        \<lparr>db = \<lparr>spaces = [''m:dmz'' \<mapsto> \<lparr>DocID = ''m:dmz'', ModelUUID = ''m'', Life = Alive,
                                          Name = ''dmz'', IsPublic = False, ProviderId = []\<rparr>],
                subnets = Map.empty, providerIDs = {}\<rparr>, script = []\<rparr>) = None
   \<and> life_at (snd (snd (EnsureDead \<lparr>st = \<lparr>stModelUUID = ''m''\<rparr>,
               doc = \<lparr>DocID = ''m:dmz'', ModelUUID = ''m'', Life = Alive, Name = ''dmz'',
                      IsPublic = False, ProviderId = []\<rparr>\<rparr>
        \<lparr>db = \<lparr>spaces = [''m:dmz'' \<mapsto> \<lparr>DocID = ''m:dmz'', ModelUUID = ''m'', Life = Alive,
                                          Name = ''dmz'', IsPublic = False, ProviderId = []\<rparr>],
                subnets = Map.empty, providerIDs = {}\<rparr>, script = []\<rparr>))) ''m:dmz'' = Some Dead
   \<and> EnsureDead \<lparr>st = \<lparr>stModelUUID = ''m''\<rparr>,
               doc = \<lparr>DocID = ''m:dmz'', ModelUUID = ''m'', Life = Alive, Name = ''dmz'',
                      IsPublic = False, ProviderId = []\<rparr>\<rparr>
        \<lparr>db = \<lparr>spaces = [''m:dmz'' \<mapsto> \<lparr>DocID = ''m:dmz'', ModelUUID = ''m'', Life = Dead,
                                          Name = ''dmz'', IsPublic = False, ProviderId = []\<rparr>],
                subnets = Map.empty, providerIDs = {}\<rparr>, script = []\<rparr>
     = (Some errNotAlive,
        \<lparr>st = \<lparr>stModelUUID = ''m''\<rparr>,
          doc = \<lparr>DocID = ''m:dmz'', ModelUUID = ''m'', Life = Alive, Name = ''dmz'',
                 IsPublic = False, ProviderId = []\<rparr>\<rparr>,
        \<lparr>db = \<lparr>spaces = [''m:dmz'' \<mapsto> \<lparr>DocID = ''m:dmz'', ModelUUID = ''m'', Life = Dead,
                                          Name = ''dmz'', IsPublic = False, ProviderId = []\<rparr>],
                subnets = Map.empty, providerIDs = {}\<rparr>, script = []\<rparr>)
   \<and> EnsureDead
       (fst (snd (EnsureDead \<lparr>st = \<lparr>stModelUUID = ''m''\<rparr>,
               doc = \<lparr>DocID = ''m:dmz'', ModelUUID = ''m'', Life = Alive, Name = ''dmz'',
                      IsPublic = False, ProviderId = []\<rparr>\<rparr>
        \<lparr>db = \<lparr>spaces = [''m:dmz'' \<mapsto> \<lparr>DocID = ''m:dmz'', ModelUUID = ''m'', Life = Alive,
                                          Name = ''dmz'', IsPublic = False, ProviderId = []\<rparr>],
                subnets = Map.empty, providerIDs = {}\<rparr>, script = []\<rparr>)))
       (snd (snd (EnsureDead \<lparr>st = \<lparr>stModelUUID = ''m''\<rparr>,
               doc = \<lparr>DocID = ''m:dmz'', ModelUUID = ''m'', Life = Alive, Name = ''dmz'',
                      IsPublic = False, ProviderId = []\<rparr>\<rparr>
        \<lparr>db = \<lparr>spaces = [''m:dmz'' \<mapsto> \<lparr>DocID = ''m:dmz'', ModelUUID = ''m'', Life = Alive,
                                          Name = ''dmz'', IsPublic = False, ProviderId = []\<rparr>],
                subnets = Map.empty, providerIDs = {}\<rparr>, script = []\<rparr>)))
     = (None,
        fst (snd (EnsureDead \<lparr>st = \<lparr>stModelUUID = ''m''\<rparr>,
               doc = \<lparr>DocID = ''m:dmz'', ModelUUID = ''m'', Life = Alive, Name = ''dmz'',
                      IsPublic = False, ProviderId = []\<rparr>\<rparr>
        \<lparr>db = \<lparr>spaces = [''m:dmz'' \<mapsto> \<lparr>DocID = ''m:dmz'', ModelUUID = ''m'', Life = Alive,
                                          Name = ''dmz'', IsPublic = False, ProviderId = []\<rparr>],
                subnets = Map.empty, providerIDs = {}\<rparr>, script = []\<rparr>)),
        snd (snd (EnsureDead \<lparr>st = \<lparr>stModelUUID = ''m''\<rparr>,
               doc = \<lparr>DocID = ''m:dmz'', ModelUUID = ''m'', Life = Alive, Name = ''dmz'',
                      IsPublic = False, ProviderId = []\<rparr>\<rparr>
        \<lparr>db = \<lparr>spaces = [''m:dmz'' \<mapsto> \<lparr>DocID = ''m:dmz'', ModelUUID = ''m'', Life = Alive,
                                          Name = ''dmz'', IsPublic = False, ProviderId = []\<rparr>],
                subnets = Map.empty, providerIDs = {}\<rparr>, script = []\<rparr>)))"
proof -
  let ?st = "\<lparr>stModelUUID = ''m''\<rparr>"
  let ?dead = "\<lparr>DocID = ''m:dmz'', ModelUUID = ''m'', Life = Dead, Name = ''dmz'',
                IsPublic = False, ProviderId = []\<rparr>"
  let ?alive = "\<lparr>DocID = ''m:dmz'', ModelUUID = ''m'', Life = Alive, Name = ''dmz'',
                 IsPublic = False, ProviderId = []\<rparr>"
  let ?wa = "\<lparr>db = \<lparr>spaces = [''m:dmz'' \<mapsto> ?alive], subnets = Map.empty, providerIDs = {}\<rparr>,
              script = []\<rparr>"
  let ?wd = "\<lparr>db = \<lparr>spaces = [''m:dmz'' \<mapsto> ?dead], subnets = Map.empty, providerIDs = {}\<rparr>,
              script = []\<rparr>"
  show ?thesis
    using EnsureDead_spec
      [of "\<lparr>st = ?st, doc = ?dead\<rparr>"
          "\<lparr>db = \<lparr>spaces = Map.empty, subnets = Map.empty, providerIDs = {}\<rparr>, script = [Fault]\<rparr>"
          "\<lparr>st = ?st, doc = ?alive\<rparr>" ?wa ?wa
          "\<lparr>st = ?st, doc = ?alive\<rparr>" ?wd ?wd
          "\<lparr>st = ?st, doc = ?alive\<rparr>" ?wa]
    by (simp add: env_step_def life_at_def docID_def)
qed


text \<open>
  C5. \<^verbatim>\<open>Remove\<close> on a space value whose life is Alive or Dying fails with the
  not-dead error without touching the store; on a Dead space value whose stored document
  is not Dead (Alive, Dying, or gone) it fails with the not-found-or-not-dead error and
  changes nothing. It succeeds only when the space value and the stored document are both
  Dead; then the document is removed, and with it the index entry of the provider id when
  one is set. After a successful \<^verbatim>\<open>Remove\<close> on a quiet store, \<^verbatim>\<open>Refresh\<close> of the same
  space returns the not-found error.
\<close>

theorem Remove_spec:
  "(Life (doc s1) \<noteq> Dead \<longrightarrow> Remove s1 v1 = (Some SpaceNotDead, v1))
   \<and> (Life (doc s2) = Dead \<and> env_step v2 = (False, w2) \<and>
      life_at w2 (docID (st s2) (DocID (doc s2))) \<noteq> Some Dead
    \<longrightarrow> Remove s2 v2 = (Some NotFoundOrNotDead, w2))
   \<and> (Life (doc s3) = Dead \<and> env_step v3 = (False, w3) \<and>
      life_at w3 (docID (st s3) (DocID (doc s3))) = Some Dead
    \<longrightarrow> fst (Remove s3 v3) = None \<and>
        spaces (db (snd (Remove s3 v3))) (docID (st s3) (DocID (doc s3))) = None \<and>
        (\<forall>i. i \<noteq> docID (st s3) (DocID (doc s3))
           \<longrightarrow> spaces (db (snd (Remove s3 v3))) i = spaces (db w3) i) \<and>
        providerIDs (db (snd (Remove s3 v3)))
          = (if ProviderId (doc s3) \<noteq> []
             then providerIDs (db w3) - {networkEntityGlobalKey (st s3) ''space'' (ProviderId (doc s3))}
             else providerIDs (db w3)))
   \<and> (fst (Remove s4 v4) = None
    \<longrightarrow> Life (doc s4) = Dead \<and>
        life_at (snd (env_step v4)) (docID (st s4) (DocID (doc s4))) = Some Dead)
   \<and> (script v5 = [] \<and> fst (Remove s5 v5) = None
    \<longrightarrow> Refresh s5 (snd (Remove s5 v5))
        = (Some (NotFoundSpace (Name (doc s5))), s5, snd (Remove s5 v5)))"
proof (intro conjI impI)
  assume "Life (doc s1) \<noteq> Dead"
  then show "Remove s1 v1 = (Some SpaceNotDead, v1)" by (simp add: Remove_def)
next
  assume "Life (doc s2) = Dead \<and> env_step v2 = (False, w2) \<and>
      life_at w2 (docID (st s2) (DocID (doc s2))) \<noteq> Some Dead"
  then show "Remove s2 v2 = (Some NotFoundOrNotDead, w2)"
    by (simp add: Remove_step [where f = False and ?w1.0 = w2] life_at_def split: option.splits)
next
  assume a: "Life (doc s3) = Dead \<and> env_step v3 = (False, w3) \<and>
      life_at w3 (docID (st s3) (DocID (doc s3))) = Some Dead"
  then obtain d where d: "spaces (db w3) (docID (st s3) (DocID (doc s3))) = Some d" "Life d = Dead"
    by (auto simp: life_at_def)
  have r: "Remove s3 v3 = (None,
       w3\<lparr>db := (db w3)\<lparr>spaces := (spaces (db w3))(docID (st s3) (DocID (doc s3)) := None),
                       providerIDs :=
                         (if ProviderId (doc s3) \<noteq> []
                          then providerIDs (db w3)
                               - {networkEntityGlobalKey (st s3) ''space'' (ProviderId (doc s3))}
                          else providerIDs (db w3))\<rparr>\<rparr>)"
    using a d by (simp add: Remove_step [where f = False and ?w1.0 = w3])
  show "fst (Remove s3 v3) = None" by (simp add: r)
  show "spaces (db (snd (Remove s3 v3))) (docID (st s3) (DocID (doc s3))) = None" by (simp add: r)
  show "\<forall>i. i \<noteq> docID (st s3) (DocID (doc s3))
           \<longrightarrow> spaces (db (snd (Remove s3 v3))) i = spaces (db w3) i"
    by (simp add: r)
  show "providerIDs (db (snd (Remove s3 v3)))
          = (if ProviderId (doc s3) \<noteq> []
             then providerIDs (db w3) - {networkEntityGlobalKey (st s3) ''space'' (ProviderId (doc s3))}
             else providerIDs (db w3))"
    by (simp add: r)
next
  assume a: "fst (Remove s4 v4) = None"
  then have dead: "Life (doc s4) = Dead"
    by (auto simp: Remove_def split: if_splits)
  obtain f w1 where e: "env_step v4 = (f, w1)" by (cases "env_step v4")
  show "Life (doc s4) = Dead" by (rule dead)
  show "life_at (snd (env_step v4)) (docID (st s4) (DocID (doc s4))) = Some Dead"
    using a e
    by (auto simp: Remove_step [OF dead e] life_at_def split: if_splits option.splits)
next
  assume a: "script v5 = [] \<and> fst (Remove s5 v5) = None"
  then have dead: "Life (doc s5) = Dead"
    by (auto simp: Remove_def split: if_splits)
  have e: "env_step v5 = (False, v5)" using a by (simp add: env_step_quiet)
  have "script (snd (Remove s5 v5)) = []"
       "spaces (db (snd (Remove s5 v5))) (docID (st s5) (DocID (doc s5))) = None"
    using a by (auto simp: Remove_step [OF dead e] split: if_splits option.splits)
  then show "Refresh s5 (snd (Remove s5 v5))
        = (Some (NotFoundSpace (Name (doc s5))), s5, snd (Remove s5 v5))"
    by (simp add: Refresh_quiet)
qed

theorem Remove_spec_witness:
  "Remove \<lparr>st = \<lparr>stModelUUID = ''m''\<rparr>,
           doc = \<lparr>DocID = ''m:dmz'', ModelUUID = ''m'', Life = Dying, Name = ''dmz'',
                  IsPublic = False, ProviderId = ''p1''\<rparr>\<rparr>
     \<lparr>db = \<lparr>spaces = [''m:dmz'' \<mapsto> \<lparr>DocID = ''m:dmz'', ModelUUID = ''m'', Life = Dying,
                                       Name = ''dmz'', IsPublic = False, ProviderId = ''p1''\<rparr>],
             subnets = Map.empty, providerIDs = {''m:space:p1''}\<rparr>, script = []\<rparr>
   = (Some SpaceNotDead,
      \<lparr>db = \<lparr>spaces = [''m:dmz'' \<mapsto> \<lparr>DocID = ''m:dmz'', ModelUUID = ''m'', Life = Dying,
                                        Name = ''dmz'', IsPublic = False, ProviderId = ''p1''\<rparr>],
              subnets = Map.empty, providerIDs = {''m:space:p1''}\<rparr>, script = []\<rparr>)
   \<and> Remove \<lparr>st = \<lparr>stModelUUID = ''m''\<rparr>,
           doc = \<lparr>DocID = ''m:dmz'', ModelUUID = ''m'', Life = Dead, Name = ''dmz'',
                  IsPublic = False, ProviderId = ''p1''\<rparr>\<rparr>
     \<lparr>db = \<lparr>spaces = [''m:dmz'' \<mapsto> \<lparr>DocID = ''m:dmz'', ModelUUID = ''m'', Life = Alive,
                                       Name = ''dmz'', IsPublic = False, ProviderId = ''p1''\<rparr>],
             subnets = Map.empty, providerIDs = {''m:space:p1''}\<rparr>, script = []\<rparr>
   = (Some NotFoundOrNotDead,
      \<lparr>db = \<lparr>spaces = [''m:dmz'' \<mapsto> \<lparr>DocID = ''m:dmz'', ModelUUID = ''m'', Life = Alive,
                                        Name = ''dmz'', IsPublic = False, ProviderId = ''p1''\<rparr>],
              subnets = Map.empty, providerIDs = {''m:space:p1''}\<rparr>, script = []\<rparr>)
   \<and> fst (Remove \<lparr>st = \<lparr>stModelUUID = ''m''\<rparr>,
           doc = \<lparr>DocID = ''m:dmz'', ModelUUID = ''m'', Life = Dead, Name = ''dmz'',
                  IsPublic = False, ProviderId = ''p1''\<rparr>\<rparr>
     \<lparr>db = \<lparr>spaces = [''m:dmz'' \<mapsto> \<lparr>DocID = ''m:dmz'', ModelUUID = ''m'', Life = Dead,
                                       Name = ''dmz'', IsPublic = False, ProviderId = ''p1''\<rparr>],
             subnets = Map.empty, providerIDs = {''m:space:p1''}\<rparr>, script = []\<rparr>) = None
   \<and> providerIDs (db (snd (Remove \<lparr>st = \<lparr>stModelUUID = ''m''\<rparr>,
           doc = \<lparr>DocID = ''m:dmz'', ModelUUID = ''m'', Life = Dead, Name = ''dmz'',
                  IsPublic = False, ProviderId = ''p1''\<rparr>\<rparr>
     \<lparr>db = \<lparr>spaces = [''m:dmz'' \<mapsto> \<lparr>DocID = ''m:dmz'', ModelUUID = ''m'', Life = Dead,
                                       Name = ''dmz'', IsPublic = False, ProviderId = ''p1''\<rparr>],
             subnets = Map.empty, providerIDs = {''m:space:p1''}\<rparr>, script = []\<rparr>))) = {}
   \<and> Refresh \<lparr>st = \<lparr>stModelUUID = ''m''\<rparr>,
           doc = \<lparr>DocID = ''m:dmz'', ModelUUID = ''m'', Life = Dead, Name = ''dmz'',
                  IsPublic = False, ProviderId = ''p1''\<rparr>\<rparr>
       (snd (Remove \<lparr>st = \<lparr>stModelUUID = ''m''\<rparr>,
           doc = \<lparr>DocID = ''m:dmz'', ModelUUID = ''m'', Life = Dead, Name = ''dmz'',
                  IsPublic = False, ProviderId = ''p1''\<rparr>\<rparr>
     \<lparr>db = \<lparr>spaces = [''m:dmz'' \<mapsto> \<lparr>DocID = ''m:dmz'', ModelUUID = ''m'', Life = Dead,
                                       Name = ''dmz'', IsPublic = False, ProviderId = ''p1''\<rparr>],
             subnets = Map.empty, providerIDs = {''m:space:p1''}\<rparr>, script = []\<rparr>))
     = (Some (NotFoundSpace ''dmz''),
        \<lparr>st = \<lparr>stModelUUID = ''m''\<rparr>,
           doc = \<lparr>DocID = ''m:dmz'', ModelUUID = ''m'', Life = Dead, Name = ''dmz'',
                  IsPublic = False, ProviderId = ''p1''\<rparr>\<rparr>,
        snd (Remove \<lparr>st = \<lparr>stModelUUID = ''m''\<rparr>,
           doc = \<lparr>DocID = ''m:dmz'', ModelUUID = ''m'', Life = Dead, Name = ''dmz'',
                  IsPublic = False, ProviderId = ''p1''\<rparr>\<rparr>
     \<lparr>db = \<lparr>spaces = [''m:dmz'' \<mapsto> \<lparr>DocID = ''m:dmz'', ModelUUID = ''m'', Life = Dead,
                                       Name = ''dmz'', IsPublic = False, ProviderId = ''p1''\<rparr>],
             subnets = Map.empty, providerIDs = {''m:space:p1''}\<rparr>, script = []\<rparr>))"
proof -
  let ?st = "\<lparr>stModelUUID = ''m''\<rparr>"
  let ?doc = "\<lambda>l. \<lparr>DocID = ''m:dmz'', ModelUUID = ''m'', Life = l, Name = ''dmz'',
                    IsPublic = False, ProviderId = ''p1''\<rparr>"
  let ?w = "\<lambda>l. \<lparr>db = \<lparr>spaces = [''m:dmz'' \<mapsto> ?doc l], subnets = Map.empty,
                         providerIDs = {''m:space:p1''}\<rparr>, script = []\<rparr>"
  have ok: "fst (Remove \<lparr>st = ?st, doc = ?doc Dead\<rparr> (?w Dead)) = None"
    by (simp add: Remove_def Let_def runTransaction_def env_step_def assert_holds_def
        isDeadDoc_def docID_def networkEntityGlobalKeyRemoveOp_def networkEntityGlobalKey_def)
  show ?thesis
    using Remove_spec
      [of "\<lparr>st = ?st, doc = ?doc Dying\<rparr>" "?w Dying"
          "\<lparr>st = ?st, doc = ?doc Dead\<rparr>" "?w Alive" "?w Alive"
          "\<lparr>st = ?st, doc = ?doc Dead\<rparr>" "?w Dead" "?w Dead"
          "\<lparr>st = ?st, doc = ?doc Dead\<rparr>" "?w Dead"
          "?w Dead" "\<lparr>st = ?st, doc = ?doc Dead\<rparr>"] ok
    by (simp add: env_step_def life_at_def docID_def networkEntityGlobalKey_def)
qed


subsection \<open>Life never moves back\<close>

lemma runTransaction_no_interference:
  "no_interference w \<Longrightarrow> no_interference (snd (runTransaction s ops w))"
  using runTransaction_calm(1) [of w s ops] by (cases "runTransaction s ops w") simp

lemma AddSpace_no_interference:
  assumes "no_interference w"
  shows "no_interference (snd (AddSpace IsValidSpace s name providerId subnetIds isPublic w))"
proof (cases "IsValidSpace name")
  case False
  then show ?thesis using assms by (simp add: AddSpace_def)
next
  case True
  obtain r w1 where t: "runTransaction s (AddSpace_ops s name providerId subnetIds isPublic) w = (r, w1)"
    by (cases "runTransaction s (AddSpace_ops s name providerId subnetIds isPublic) w")
  have c: "no_interference w1" using runTransaction_calm(1) [OF assms t] .
  obtain e2 w2 where a: "AddSpace_aborted s name providerId subnetIds
       \<lparr>st = s, doc = \<lparr>DocID = docID s name, ModelUUID = stModelUUID s, Life = Alive,
                       Name = name, IsPublic = isPublic, ProviderId = providerId\<rparr>\<rparr> w1 = (e2, w2)"
    by (cases "AddSpace_aborted s name providerId subnetIds
       \<lparr>st = s, doc = \<lparr>DocID = docID s name, ModelUUID = stModelUUID s, Life = Alive,
                       Name = name, IsPublic = isPublic, ProviderId = providerId\<rparr>\<rparr> w1")
  have "no_interference w2" using AddSpace_aborted_calm(2) [OF c a] .
  then show ?thesis
    using True t a c by (simp add: AddSpace_def Let_def split: option.splits)
qed

lemma AddSpace_moves:
  assumes "no_interference w"
  shows "spaces (db (snd (AddSpace IsValidSpace s name providerId subnetIds isPublic w))) i
           = spaces (db w) i
       \<or> spaces (db w) i = None \<and>
         map_option Life (spaces (db (snd (AddSpace IsValidSpace s name providerId subnetIds isPublic w))) i)
           = Some Alive"
proof (cases "fst (AddSpace IsValidSpace s name providerId subnetIds isPublic w)")
  case (Inl e)
  then show ?thesis using AddSpace_failure_calm [OF assms] by simp
next
  case (Inr sp)
  then have v: "IsValidSpace name" by (auto simp: AddSpace_def split: if_splits)
  obtain f w1 where e: "env_step w = (f, w1)" by (cases "env_step w")
  have d: "db w1 = db w" using env_step_calm(1) [OF assms e] .
  let ?ops = "AddSpace_ops s name providerId subnetIds isPublic"
  obtain r w2 where t: "runTransaction s ?ops w = (r, w2)"
    by (cases "runTransaction s ?ops w")
  have rn: "r = None"
  proof (cases r)
    case None
    then show ?thesis .
  next
    case (Some err)
    then have "\<exists>e. fst (AddSpace IsValidSpace s name providerId subnetIds isPublic w) = Inl e"
      using v t by (cases "err = ErrAborted") (simp_all add: AddSpace_def Let_def split: prod.splits)
    then show ?thesis using Inr by simp
  qed
  have t': "(case f of True \<Rightarrow> (Some StoreError, w1)
      | False \<Rightarrow>
          if spaces (db w1) (docID s name) = None \<and>
             (providerId \<noteq> [] \<longrightarrow> networkEntityGlobalKey s ''space'' providerId \<notin> providerIDs (db w1)) \<and>
             (\<forall>subnetId \<in> set subnetIds. subnets (db w1) (docID s subnetId) \<noteq> None)
          then (None, w1\<lparr>db := foldl apply_op (db w1) ?ops\<rparr>)
          else (Some ErrAborted, w1)) = (None, w2)"
    using t rn e runTransaction_AddSpace [of s name providerId subnetIds isPublic w] by simp
  have ok: "w2 = w1\<lparr>db := foldl apply_op (db w1) ?ops\<rparr>
            \<and> spaces (db w1) (docID s name) = None
            \<and> (providerId \<noteq> [] \<longrightarrow> networkEntityGlobalKey s ''space'' providerId \<notin> providerIDs (db w1))"
    using t' by (cases f) (auto split: if_splits)
  have w': "snd (AddSpace IsValidSpace s name providerId subnetIds isPublic w)
                 = w1\<lparr>db := foldl apply_op (db w1) ?ops\<rparr>"
    using v t rn ok by (simp add: AddSpace_def Let_def)
  have sp: "spaces (foldl apply_op (db w1) ?ops)
            = (spaces (db w1))(docID s name \<mapsto>
                \<lparr>DocID = docID s name, ModelUUID = stModelUUID s, Life = Alive, Name = name,
                 IsPublic = isPublic, ProviderId = providerId\<rparr>)"
    using ok by (intro AddSpace_apply(1)) simp_all
  have sp': "spaces (foldl apply_op (db w) ?ops)
            = (spaces (db w))(docID s name \<mapsto>
                \<lparr>DocID = docID s name, ModelUUID = stModelUUID s, Life = Alive, Name = name,
                 IsPublic = isPublic, ProviderId = providerId\<rparr>)"
    using sp d by simp
  have fresh: "spaces (db w) (docID s name) = None" using ok d by simp
  show ?thesis
    using fresh d by (cases "i = docID s name") (simp_all add: w' sp')
qed

lemma no_interference_db_update: "no_interference (w\<lparr>db := d\<rparr>) = no_interference w"
  by (simp add: no_interference_def)

lemma EnsureDead_no_interference:
  assumes "no_interference w"
  shows "no_interference (snd (snd (EnsureDead sp w)))"
proof (cases "Life (doc sp) = Dead")
  case True
  then show ?thesis using assms by (simp add: EnsureDead_def)
next
  case False
  obtain f w1 where e: "env_step w = (f, w1)" by (cases "env_step w")
  have "no_interference w1" using env_step_calm(2) [OF assms e] .
  then show ?thesis
    by (simp add: EnsureDead_step [OF False e] no_interference_db_update split: option.splits)
qed

lemma Remove_no_interference:
  assumes "no_interference w"
  shows "no_interference (snd (Remove sp w))"
proof (cases "Life (doc sp) = Dead")
  case False
  then show ?thesis using assms by (simp add: Remove_def)
next
  case True
  obtain f w1 where e: "env_step w = (f, w1)" by (cases "env_step w")
  have "no_interference w1" using env_step_calm(2) [OF assms e] .
  then show ?thesis
    by (simp add: Remove_step [OF True e] no_interference_db_update split: option.splits)
qed

lemma EnsureDead_moves:
  assumes "no_interference w"
  shows "spaces (db (snd (snd (EnsureDead sp w)))) i = spaces (db w) i
       \<or> (\<exists>d. spaces (db w) i = Some d \<and> Life d = Alive \<and>
              spaces (db (snd (snd (EnsureDead sp w)))) i = Some (d\<lparr>Life := Dead\<rparr>))"
proof (cases "Life (doc sp) = Dead")
  case True
  then show ?thesis by (simp add: EnsureDead_def)
next
  case False
  obtain f w1 where e: "env_step w = (f, w1)" by (cases "env_step w")
  have d: "db w1 = db w" using env_step_calm(1) [OF assms e] .
  show ?thesis
    using d by (auto simp: EnsureDead_step [OF False e] split: option.splits)
qed

lemma Remove_moves:
  assumes "no_interference w"
  shows "spaces (db (snd (Remove sp w))) i = spaces (db w) i
       \<or> (\<exists>d. spaces (db w) i = Some d \<and> Life d = Dead \<and>
              spaces (db (snd (Remove sp w))) i = None)"
proof (cases "Life (doc sp) = Dead")
  case False
  then show ?thesis by (simp add: Remove_def)
next
  case True
  obtain f w1 where e: "env_step w = (f, w1)" by (cases "env_step w")
  have d: "db w1 = db w" using env_step_calm(1) [OF assms e] .
  show ?thesis
    using d by (auto simp: Remove_step [OF True e] split: option.splits)
qed

lemma perform_no_interference:
  "no_interference w \<Longrightarrow> no_interference (perform IsValidSpace w a)"
  by (cases a)
     (simp_all add: AddSpace_no_interference EnsureDead_no_interference Remove_no_interference)

lemma run_no_interference:
  "no_interference w \<Longrightarrow> no_interference (run IsValidSpace acts w)"
  unfolding run_def
  by (induction acts arbitrary: w) (simp_all add: perform_no_interference)

lemma perform_keeps_life:
  assumes "no_interference w" "life_at w i = Some l" "l \<noteq> Alive"
  shows "life_at (perform IsValidSpace w a) i = Some l
       \<or> life_at (perform IsValidSpace w a) i = None"
proof (cases a)
  case (DoAddSpace s name providerId subnetIds isPublic)
  then show ?thesis
    using assms AddSpace_moves [OF assms(1), of IsValidSpace s name providerId subnetIds isPublic i]
    by (auto simp: life_at_def)
next
  case (DoEnsureDead sp)
  then show ?thesis
    using assms EnsureDead_moves [OF assms(1), of sp i] by (auto simp: life_at_def)
next
  case (DoRemove sp)
  then show ?thesis
    using assms Remove_moves [OF assms(1), of sp i] by (auto simp: life_at_def)
qed

lemma run_snoc: "run IsValidSpace (acts @ [a]) w = perform IsValidSpace (run IsValidSpace acts w) a"
  by (simp add: run_def)

lemma run_keeps_life:
  assumes "no_interference w" "life_at w i = Some l" "l \<noteq> Alive"
  shows "life_at (run IsValidSpace acts w) i = Some l
       \<or> (\<exists>k \<le> length acts. life_at (run IsValidSpace (take k acts) w) i = None)"
proof (induction acts rule: rev_induct)
  case Nil
  then show ?case using assms(2) by (simp add: run_def)
next
  case (snoc a acts)
  show ?case
  proof (cases "\<exists>k \<le> length acts. life_at (run IsValidSpace (take k acts) w) i = None")
    case True
    then obtain k where k: "k \<le> length acts" "life_at (run IsValidSpace (take k acts) w) i = None"
      by blast
    then have "k \<le> length (acts @ [a])" "life_at (run IsValidSpace (take k (acts @ [a])) w) i = None"
      by simp_all
    then show ?thesis by blast
  next
    case False
    then have here: "life_at (run IsValidSpace acts w) i = Some l" using snoc by blast
    have ni: "no_interference (run IsValidSpace acts w)"
      using assms(1) by (rule run_no_interference)
    from perform_keeps_life [OF ni here assms(3), of IsValidSpace a]
    show ?thesis
    proof
      assume "life_at (perform IsValidSpace (run IsValidSpace acts w) a) i = Some l"
      then show ?thesis by (simp add: run_snoc)
    next
      assume "life_at (perform IsValidSpace (run IsValidSpace acts w) a) i = None"
      then have "life_at (run IsValidSpace (take (length (acts @ [a])) (acts @ [a])) w) i = None"
        by (simp add: run_snoc)
      then show ?thesis by blast
    qed
  qed
qed


text \<open>
  C6. In every state reached by any sequence of \<^verbatim>\<open>AddSpace\<close>, \<^verbatim>\<open>EnsureDead\<close> and
  \<^verbatim>\<open>Remove\<close> calls (by any actors, with any space values), no call moves the life of a
  stored space from Dead or from Dying to Alive. Over a whole run, a space that is Dead
  or Dying keeps that life for as long as its document is there; the only way on is its
  removal. (An id whose Dead document has been removed is absent, and \<^verbatim>\<open>AddSpace\<close> may
  then insert a new document under it.)
\<close>

theorem life_never_moves_back:
  "(no_interference w \<and> life_at (run IsValidSpace acts w) i = Some l \<and> l \<noteq> Alive
    \<longrightarrow> life_at (perform IsValidSpace (run IsValidSpace acts w) a) i \<noteq> Some Alive)
   \<and> (no_interference w \<and> life_at w i = Some l' \<and> l' \<noteq> Alive
    \<longrightarrow> life_at (run IsValidSpace acts' w) i = Some l'
        \<or> (\<exists>k \<le> length acts'. life_at (run IsValidSpace (take k acts') w) i = None))"
proof (intro conjI impI)
  assume a: "no_interference w \<and> life_at (run IsValidSpace acts w) i = Some l \<and> l \<noteq> Alive"
  then have "no_interference (run IsValidSpace acts w)"
    by (simp add: run_no_interference)
  from perform_keeps_life [OF this, of i l IsValidSpace a] a
  show "life_at (perform IsValidSpace (run IsValidSpace acts w) a) i \<noteq> Some Alive"
    by auto
next
  assume "no_interference w \<and> life_at w i = Some l' \<and> l' \<noteq> Alive"
  then show "life_at (run IsValidSpace acts' w) i = Some l'
        \<or> (\<exists>k \<le> length acts'. life_at (run IsValidSpace (take k acts') w) i = None)"
    using run_keeps_life [of w i l' IsValidSpace acts'] by blast
qed

theorem life_never_moves_back_witness:
  "life_at
     (perform (\<lambda>n. n \<noteq> [])
        (run (\<lambda>n. n \<noteq> []) [DoAddSpace \<lparr>stModelUUID = ''m''\<rparr> ''dmz'' [] [] False]
           \<lparr>db = \<lparr>spaces = [''m:dmz'' \<mapsto> \<lparr>DocID = ''m:dmz'', ModelUUID = ''m'', Life = Dead,
                                             Name = ''dmz'', IsPublic = False, ProviderId = []\<rparr>],
                   subnets = Map.empty, providerIDs = {}\<rparr>, script = [Fault]\<rparr>)
        (DoEnsureDead \<lparr>st = \<lparr>stModelUUID = ''m''\<rparr>,
                       doc = \<lparr>DocID = ''m:dmz'', ModelUUID = ''m'', Life = Alive,
                              Name = ''dmz'', IsPublic = False, ProviderId = []\<rparr>\<rparr>))
     ''m:dmz'' \<noteq> Some Alive
   \<and> (life_at
        (run (\<lambda>n. n \<noteq> [])
           [DoEnsureDead \<lparr>st = \<lparr>stModelUUID = ''m''\<rparr>,
                          doc = \<lparr>DocID = ''m:dmz'', ModelUUID = ''m'', Life = Alive,
                                 Name = ''dmz'', IsPublic = False, ProviderId = []\<rparr>\<rparr>,
            DoAddSpace \<lparr>stModelUUID = ''m''\<rparr> ''dmz'' [] [] False]
           \<lparr>db = \<lparr>spaces = [''m:dmz'' \<mapsto> \<lparr>DocID = ''m:dmz'', ModelUUID = ''m'', Life = Dead,
                                             Name = ''dmz'', IsPublic = False, ProviderId = []\<rparr>],
                   subnets = Map.empty, providerIDs = {}\<rparr>, script = [Fault]\<rparr>)
        ''m:dmz'' = Some Dead
      \<or> (\<exists>k \<le> length
             [DoEnsureDead \<lparr>st = \<lparr>stModelUUID = ''m''\<rparr>,
                            doc = \<lparr>DocID = ''m:dmz'', ModelUUID = ''m'', Life = Alive,
                                   Name = ''dmz'', IsPublic = False, ProviderId = []\<rparr>\<rparr>,
              DoAddSpace \<lparr>stModelUUID = ''m''\<rparr> ''dmz'' [] [] False].
           life_at
             (run (\<lambda>n. n \<noteq> [])
                (take k
                   [DoEnsureDead \<lparr>st = \<lparr>stModelUUID = ''m''\<rparr>,
                                  doc = \<lparr>DocID = ''m:dmz'', ModelUUID = ''m'', Life = Alive,
                                         Name = ''dmz'', IsPublic = False, ProviderId = []\<rparr>\<rparr>,
                    DoAddSpace \<lparr>stModelUUID = ''m''\<rparr> ''dmz'' [] [] False])
                \<lparr>db = \<lparr>spaces = [''m:dmz'' \<mapsto> \<lparr>DocID = ''m:dmz'', ModelUUID = ''m'', Life = Dead,
                                                  Name = ''dmz'', IsPublic = False, ProviderId = []\<rparr>],
                        subnets = Map.empty, providerIDs = {}\<rparr>, script = [Fault]\<rparr>)
             ''m:dmz'' = None))"
proof -
  let ?v = "\<lambda>n::string. n \<noteq> []"
  let ?st = "\<lparr>stModelUUID = ''m''\<rparr>"
  let ?doc = "\<lambda>l. \<lparr>DocID = ''m:dmz'', ModelUUID = ''m'', Life = l, Name = ''dmz'',
                    IsPublic = False, ProviderId = []\<rparr>"
  let ?w = "\<lparr>db = \<lparr>spaces = [''m:dmz'' \<mapsto> ?doc Dead], subnets = Map.empty, providerIDs = {}\<rparr>,
             script = [Fault]\<rparr>"
  have r: "run ?v [DoAddSpace ?st ''dmz'' [] [] False] ?w
           = \<lparr>db = \<lparr>spaces = [''m:dmz'' \<mapsto> ?doc Dead], subnets = Map.empty, providerIDs = {}\<rparr>,
              script = []\<rparr>"
    by (simp add: run_def AddSpace_def Let_def runTransaction_def env_step_def)
  show ?thesis
    using life_never_moves_back
      [of ?w ?v "[DoAddSpace ?st ''dmz'' [] [] False]" "''m:dmz''" Dead
          "DoEnsureDead \<lparr>st = ?st, doc = ?doc Alive\<rparr>" Dead
          "[DoEnsureDead \<lparr>st = ?st, doc = ?doc Alive\<rparr>, DoAddSpace ?st ''dmz'' [] [] False]"]
    by (simp add: r no_interference_def is_Interfere_def life_at_def)
qed

end
